theory Spec2Isabelle
  imports Main "HOL-Library.Word"
begin

section \<open>Strings and the standard-library helpers the code calls\<close>

text \<open>
  A Go string is a sequence of bytes, and so is an Isabelle \<open>string\<close> (a \<open>char list\<close>
  whose characters are the 256 byte values). The separators the code splits on
  (\<open>.\<close> and \<open>/\<close>) are single bytes, so \<open>strings.Split\<close> is modelled for a one-byte
  separator: it returns the pieces between the occurrences of the separator, and always
  at least one piece.
\<close>

fun Split :: "char \<Rightarrow> string \<Rightarrow> string list" where
  "Split sep [] = [[]]"
| "Split sep (c # cs) =
     (if c = sep then [] # Split sep cs
      else (case Split sep cs of
              [] \<Rightarrow> [[c]]
            | p # ps \<Rightarrow> (c # p) # ps))"

text \<open>\<open>strings.TrimSuffix(s, "/")\<close>: one trailing slash is removed, if there is one.\<close>

definition TrimSuffix :: "string \<Rightarrow> string" where
  "TrimSuffix s = (if s \<noteq> [] \<and> last s = CHR ''/'' then butlast s else s)"

subsection \<open>encoding/base64: the padded URL alphabet, as \<open>base64.URLEncoding\<close> decodes it\<close>

definition encodeURL :: string where
  "encodeURL = ''ABCDEFGHIJKLMNOPQRSTUVWXYZabcdefghijklmnopqrstuvwxyz0123456789-_''"

fun lookup_index :: "'a list \<Rightarrow> 'a \<Rightarrow> nat option" where
  "lookup_index [] c = None"
| "lookup_index (x # xs) c = (if x = c then Some 0 else map_option Suc (lookup_index xs c))"

text \<open>The decode map of the encoding: the six-bit value of an alphabet byte, nothing (0xff
  in Go) for every other byte.\<close>

definition decodeMap :: "char \<Rightarrow> nat option" where
  "decodeMap c = lookup_index encodeURL c"

text \<open>
  One quantum: four six-bit values \<open>a b c d\<close> are assembled into 24 bits
  (\<open>a<<18 | b<<12 | c<<6 | d\<close>; the operands do not overlap, so the bitwise or is a sum)
  and the first \<open>n\<close> of its three bytes are written.
\<close>

definition quantum_bytes :: "nat \<Rightarrow> nat \<Rightarrow> nat \<Rightarrow> nat \<Rightarrow> nat \<Rightarrow> string" where
  "quantum_bytes a b c d n =
     (let v = a * 262144 + b * 4096 + c * 64 + d
      in take n [char_of (v div 65536), char_of (v div 256), char_of v])"

text \<open>The six-bit values read so far in the current quantum (Go's \<open>dbuf\<close> and \<open>j\<close>).\<close>

datatype dbuf = Q0 | Q1 nat | Q2 nat nat | Q3 nat nat nat

fun skip_newlines :: "string \<Rightarrow> string" where
  "skip_newlines [] = []"
| "skip_newlines (c # cs) =
     (if c = CHR 0x0A \<or> c = CHR 0x0D then skip_newlines cs else c # cs)"

text \<open>
  \<open>Encoding.Decode\<close> for a padded, non-strict encoding, as a loop over the input:
  carriage returns and line feeds are skipped wherever they stand; a byte outside the
  alphabet that is not the padding is corrupt input; padding is accepted only after two
  or three values of a quantum (\<open>==\<close> after two), and only newlines may follow it; the
  input may end only between quanta. \<open>None\<close> is Go's \<open>CorruptInputError\<close>.
\<close>

fun decode_loop :: "dbuf \<Rightarrow> string \<Rightarrow> string option" where
  "decode_loop q [] = (if q = Q0 then Some [] else None)"
| "decode_loop q (c # cs) =
     (case decodeMap c of
        Some v \<Rightarrow>
          (case q of
             Q0 \<Rightarrow> decode_loop (Q1 v) cs
           | Q1 a \<Rightarrow> decode_loop (Q2 a v) cs
           | Q2 a b \<Rightarrow> decode_loop (Q3 a b v) cs
           | Q3 a b d \<Rightarrow>
               (case decode_loop Q0 cs of
                  None \<Rightarrow> None
                | Some out \<Rightarrow> Some (quantum_bytes a b d v 3 @ out)))
      | None \<Rightarrow>
          if c = CHR 0x0A \<or> c = CHR 0x0D then decode_loop q cs
          else if c \<noteq> CHR ''='' then None
          else (case q of
                  Q0 \<Rightarrow> None
                | Q1 a \<Rightarrow> None
                | Q2 a b \<Rightarrow>
                    (case skip_newlines cs of
                       [] \<Rightarrow> None
                     | p # rest \<Rightarrow>
                         if p \<noteq> CHR ''='' then None
                         else if skip_newlines rest \<noteq> [] then None
                         else Some (quantum_bytes a b 0 0 1))
                | Q3 a b d \<Rightarrow>
                    if skip_newlines cs \<noteq> [] then None
                    else Some (quantum_bytes a b d 0 2)))"

definition DecodeString :: "string \<Rightarrow> string option" where
  "DecodeString s = decode_loop Q0 s"

text \<open>
  The unpadded encoder \<open>base64.RawURLEncoding.EncodeToString\<close>, which the code never
  calls: it is how a token's payload segment is produced, and the round trip below
  needs it.
\<close>

definition enc6 :: "nat \<Rightarrow> char" where
  "enc6 i = encodeURL ! i"

fun RawURLEncode :: "string \<Rightarrow> string" where
  "RawURLEncode [] = []"
| "RawURLEncode [x] =
     (let a = (of_char x :: nat) in [enc6 (a div 4), enc6 ((a mod 4) * 16)])"
| "RawURLEncode [x, y] =
     (let a = (of_char x :: nat); b = (of_char y :: nat)
      in [enc6 (a div 4), enc6 ((a mod 4) * 16 + b div 16), enc6 ((b mod 16) * 4)])"
| "RawURLEncode (x # y # z # rest) =
     (let a = (of_char x :: nat); b = (of_char y :: nat); c = (of_char z :: nat)
      in [enc6 (a div 4), enc6 ((a mod 4) * 16 + b div 16),
          enc6 ((b mod 16) * 4 + c div 64), enc6 (c mod 64)] @ RawURLEncode rest)"

section \<open>Package jwt: decoding a token's claims\<close>

record JWTClaims =
  Sub :: string
  Iss :: string
  PreferredUsername :: string
  Email :: string
  Name :: string
  GivenName :: string
  FamilyName :: string
  Exp :: "64 word"
  Iat :: "64 word"

datatype jwt_error =
    InvalidTokenFormat
  | PayloadDecodeFailed
  | ClaimsParseFailed
  | InvalidIssuerFormat
  | RealmNotExtracted
  | SubjectNotFound

text \<open>The loop \<open>for len(payload)%4 != 0 { payload += "=" }\<close>.\<close>

function add_padding :: "string \<Rightarrow> string" where
  "add_padding payload =
     (if length payload mod 4 \<noteq> 0 then add_padding (payload @ ''='') else payload)"
  by pat_completeness auto
termination
proof (relation "measure (\<lambda>p. (4 - length p mod 4) mod 4)")
  show "wf (measure (\<lambda>p. (4 - length p mod 4) mod 4))"
    by (rule wf_measure)
next
  fix payload :: string
  assume open_quantum: "length payload mod 4 \<noteq> 0"
  have "length payload mod 4 < 4" by simp
  then consider "length payload mod 4 = 1" | "length payload mod 4 = 2"
    | "length payload mod 4 = 3"
    using open_quantum by linarith
  then have "(4 - Suc (length payload) mod 4) mod 4 < (4 - length payload mod 4) mod 4"
    by cases (simp_all add: mod_Suc)
  then show "(payload @ ''='', payload) \<in> measure (\<lambda>p. (4 - length p mod 4) mod 4)"
    unfolding in_measure by simp
qed

declare add_padding.simps [simp del]

text \<open>
  \<open>DecodeJWT\<close>. \<open>json.Unmarshal\<close> into a \<open>JWTClaims\<close> belongs to Go's
  standard library; it is the parameter \<open>unmarshal\<close>, which gives the decoded claims or
  nothing when the library reports an error.
\<close>

definition DecodeJWT :: "(string \<Rightarrow> JWTClaims option) \<Rightarrow> string \<Rightarrow> jwt_error + JWTClaims" where
  "DecodeJWT unmarshal token =
     (let parts = Split CHR ''.'' token in
      if length parts \<noteq> 3 then Inl InvalidTokenFormat
      else let payload = add_padding (parts ! 1) in
        (case DecodeString payload of
           None \<Rightarrow> Inl PayloadDecodeFailed
         | Some decoded \<Rightarrow>
             (case unmarshal decoded of
                None \<Rightarrow> Inl ClaimsParseFailed
              | Some claims \<Rightarrow> Inr claims)))"

definition ExtractTenantID :: "(string \<Rightarrow> JWTClaims option) \<Rightarrow> string \<Rightarrow> jwt_error + string" where
  "ExtractTenantID unmarshal token =
     (case DecodeJWT unmarshal token of
        Inl err \<Rightarrow> Inl err
      | Inr claims \<Rightarrow>
          (let parts = Split CHR ''/'' (Iss claims) in
           if length parts < 2 then Inl InvalidIssuerFormat
           else let realm = parts ! (length parts - 1) in
             if realm = [] then Inl RealmNotExtracted else Inr realm))"

definition ExtractClientID :: "(string \<Rightarrow> JWTClaims option) \<Rightarrow> string \<Rightarrow> jwt_error + string" where
  "ExtractClientID unmarshal token =
     (case DecodeJWT unmarshal token of
        Inl err \<Rightarrow> Inl err
      | Inr claims \<Rightarrow> if Sub claims = [] then Inl SubjectNotFound else Inr (Sub claims))"

text \<open>
  Instants are whole nanoseconds since the Unix epoch. \<open>time.Unix(sec, 0)\<close> keeps, in a
  signed 64-bit field, the seconds since the year 1: \<open>sec + unixToInternal\<close>, an addition
  that wraps around; the instant it stands for, and the one \<open>After\<close> compares, is that
  many seconds after the year 1, which is \<open>sec\<close> seconds after the epoch only as long as
  the addition does not wrap. \<open>t.Add(d)\<close> moves an instant by \<open>d\<close> nanoseconds and
  \<open>t.After(u)\<close> compares two instants. The clock reading \<open>time.Now()\<close> is the parameter
  \<open>now\<close>; a clock reading, and the reading 30 seconds later, are times Go represents
  exactly.
\<close>

type_synonym instant = int

definition Second :: int where
  "Second = 1000000000"

definition unixToInternal :: "64 word" where
  "unixToInternal = 62135596800"

definition Unix :: "64 word \<Rightarrow> int \<Rightarrow> instant" where
  "Unix sec nsec = (sint (sec + unixToInternal) - 62135596800) * 1000000000 + nsec"

definition Add :: "instant \<Rightarrow> int \<Rightarrow> instant" where
  "Add t d = t + d"

definition After :: "instant \<Rightarrow> instant \<Rightarrow> bool" where
  "After t u = (t > u)"

text \<open>\<open>IsTokenExpired\<close> returns its boolean together with the error, as the Go function does.\<close>

definition IsTokenExpired ::
  "(string \<Rightarrow> JWTClaims option) \<Rightarrow> instant \<Rightarrow> string \<Rightarrow> bool \<times> jwt_error option" where
  "IsTokenExpired unmarshal now token =
     (case DecodeJWT unmarshal token of
        Inl err \<Rightarrow> (True, Some err)
      | Inr claims \<Rightarrow>
          (let expiryTime = Unix (Exp claims) 0
           in (After (Add now (30 * Second)) expiryTime, None)))"

section \<open>The network\<close>

text \<open>
  A request as the code builds it. The workflow calls send a body the code formats
  itself; the token call hands a table of form fields to its HTTP client.
\<close>

datatype body = Raw string | Form "(string \<times> string) list"

record request =
  verb :: string
  url :: string
  headers :: "(string \<times> string) list"
  payload :: body

text \<open>
  What happens to one request: it cannot be built (\<open>http.NewRequest\<close> refuses the URL, and
  nothing is sent), sending fails, reading the response fails, or the remote service
  replies with a status and a body.
\<close>

datatype outcome = NotSent | SendFailed | ReadFailed | Replied nat string

text \<open>
  The remote side is a parameter: it decides the outcome of a request from the requests
  sent before it in the same run and the request itself.
\<close>

type_synonym network = "request list \<Rightarrow> request \<Rightarrow> outcome"

section \<open>Package config: the stored configuration\<close>

record AuthConfig =
  ServerURL :: string
  Realm :: string
  ClientID :: string
  ClientSecret :: string
  Username :: string
  Password :: string

record Config =
  Server :: string
  JWTToken :: string
  Auth :: "AuthConfig option"

text \<open>
  The configuration file \<open>~/.digit/config.yaml\<close>, by what reading it gives: no home
  directory, no file (the default configuration is used), a file that cannot be read or
  parsed, or the configuration the file holds. Writing needs the directory and the file
  to be writable. The field \<open>Auth\<close> is the pointer \<open>AuthConfig\<close> of the Go struct, \<open>None\<close>
  for nil.
\<close>

datatype config_file = HomeDirUnknown | FileMissing | FileUnreadable | FileUnparseable | FileHolds Config

record storage =
  config_yaml :: config_file
  dir_creatable :: bool
  file_writable :: bool

datatype config_error = HomeDirError | ReadError | ParseError | MkdirError | WriteError

definition Load :: "storage \<Rightarrow> config_error + Config" where
  "Load st =
     (case config_yaml st of
        HomeDirUnknown \<Rightarrow> Inl HomeDirError
      | FileMissing \<Rightarrow> Inr \<lparr>Server = [], JWTToken = [], Auth = None\<rparr>
      | FileUnreadable \<Rightarrow> Inl ReadError
      | FileUnparseable \<Rightarrow> Inl ParseError
      | FileHolds c \<Rightarrow> Inr c)"

definition Save :: "Config \<Rightarrow> storage \<Rightarrow> config_error + storage" where
  "Save c st =
     (if config_yaml st = HomeDirUnknown then Inl HomeDirError
      else if \<not> dir_creatable st then Inl MkdirError
      else if \<not> file_writable st then Inl WriteError
      else Inr (st\<lparr>config_yaml := FileHolds c\<rparr>))"

definition config_GetJWTToken :: "storage \<Rightarrow> config_error + string" where
  "config_GetJWTToken st = (case Load st of Inl err \<Rightarrow> Inl err | Inr c \<Rightarrow> Inr (JWTToken c))"

definition config_SetJWTToken :: "string \<Rightarrow> storage \<Rightarrow> config_error + storage" where
  "config_SetJWTToken token st =
     (case Load st of Inl err \<Rightarrow> Inl err | Inr c \<Rightarrow> Save (c\<lparr>JWTToken := token\<rparr>) st)"

definition config_GetAuthConfig :: "storage \<Rightarrow> config_error + AuthConfig option" where
  "config_GetAuthConfig st = (case Load st of Inl err \<Rightarrow> Inl err | Inr c \<Rightarrow> Inr (Auth c))"

section \<open>Package digit: the token request\<close>

text \<open>The field \<open>RefreshTokenField\<close> is \<open>RefreshToken\<close> in Go; the function of that name
  follows below.\<close>

record TokenResponse =
  AccessToken :: string
  ExpiresIn :: int
  RefreshExpiresIn :: int
  RefreshTokenField :: string
  TokenType :: string
  NotBeforePolicy :: int
  SessionState :: string
  Scope :: string

datatype token_error =
    ServerEmpty | RealmEmpty | ClientIDEmpty | ClientSecretEmpty | UsernameEmpty | PasswordEmpty
  | TokenRequestFailed
  | GetTokenFailed string
  | TokenResponseParseFailed

definition token_request :: "string \<Rightarrow> string \<Rightarrow> string \<Rightarrow> string \<Rightarrow> string \<Rightarrow> string \<Rightarrow> request" where
  "token_request server realm clientID clientSecret username password =
     \<lparr>verb = ''POST'',
      url = server @ ''/keycloak/realms/'' @ realm @ ''/protocol/openid-connect/token'',
      headers = [(''Content-Type'', ''application/x-www-form-urlencoded'')],
      payload = Form [(''grant_type'', ''password''),
                      (''client_id'', clientID),
                      (''client_secret'', clientSecret),
                      (''username'', username),
                      (''password'', password)]\<rparr>"

text \<open>
  \<open>digit.GetJWTToken\<close>. \<open>json.Unmarshal\<close> into a \<open>TokenResponse\<close> is the parameter
  \<open>unmarshal\<close>. The second component of the result lists the requests that were sent
  (none or one). The HTTP client reports every failure of the exchange as one error.
\<close>

definition digit_GetJWTToken ::
  "network \<Rightarrow> (string \<Rightarrow> TokenResponse option) \<Rightarrow> request list \<Rightarrow>
   string \<Rightarrow> string \<Rightarrow> string \<Rightarrow> string \<Rightarrow> string \<Rightarrow> string \<Rightarrow>
   (token_error + string) \<times> request list" where
  "digit_GetJWTToken net unmarshal before server realm clientID clientSecret username password =
     (if server = [] then (Inl ServerEmpty, [])
      else if realm = [] then (Inl RealmEmpty, [])
      else if clientID = [] then (Inl ClientIDEmpty, [])
      else if clientSecret = [] then (Inl ClientSecretEmpty, [])
      else if username = [] then (Inl UsernameEmpty, [])
      else if password = [] then (Inl PasswordEmpty, [])
      else let req = token_request server realm clientID clientSecret username password in
        (case net before req of
           NotSent \<Rightarrow> (Inl TokenRequestFailed, [])
         | SendFailed \<Rightarrow> (Inl TokenRequestFailed, [req])
         | ReadFailed \<Rightarrow> (Inl TokenRequestFailed, [req])
         | Replied status resp \<Rightarrow>
             if status \<noteq> 200 then (Inl (GetTokenFailed resp), [req])
             else (case unmarshal resp of
                     None \<Rightarrow> (Inl TokenResponseParseFailed, [req])
                   | Some tokenResp \<Rightarrow> (Inr (AccessToken tokenResp), [req]))))"

section \<open>Package auth: a valid token, refreshed when it has expired\<close>

text \<open>What a run can change: the configuration file, and the requests sent so far.\<close>

record world =
  store :: storage
  sent :: "request list"

datatype refresh_error =
    GetAuthConfigFailed config_error
  | NoAuthConfig
  | KeycloakAuthFailed token_error
  | StoreTokenFailed config_error

datatype auth_error =
    GetTokenError config_error
  | NoJWTToken
  | ValidateTokenFailed jwt_error
  | RefreshFailed refresh_error

definition RefreshToken ::
  "network \<Rightarrow> (string \<Rightarrow> TokenResponse option) \<Rightarrow> world \<Rightarrow> (refresh_error + string) \<times> world" where
  "RefreshToken net unmarshal w =
     (case config_GetAuthConfig (store w) of
        Inl err \<Rightarrow> (Inl (GetAuthConfigFailed err), w)
      | Inr None \<Rightarrow> (Inl NoAuthConfig, w)
      | Inr (Some authConfig) \<Rightarrow>
          (case digit_GetJWTToken net unmarshal (sent w)
                  (ServerURL authConfig) (Realm authConfig) (ClientID authConfig)
                  (ClientSecret authConfig) (Username authConfig) (Password authConfig) of
             (Inl err, new) \<Rightarrow> (Inl (KeycloakAuthFailed err), w\<lparr>sent := sent w @ new\<rparr>)
           | (Inr newToken, new) \<Rightarrow>
               (case config_SetJWTToken newToken (store w) of
                  Inl err \<Rightarrow> (Inl (StoreTokenFailed err), w\<lparr>sent := sent w @ new\<rparr>)
                | Inr st \<Rightarrow> (Inr newToken, \<lparr>store = st, sent = sent w @ new\<rparr>))))"

definition GetValidJWTToken ::
  "network \<Rightarrow> (string \<Rightarrow> JWTClaims option) \<Rightarrow> (string \<Rightarrow> TokenResponse option) \<Rightarrow>
   instant \<Rightarrow> world \<Rightarrow> (auth_error + string) \<times> world" where
  "GetValidJWTToken net unmarshalClaims unmarshalToken now w =
     (case config_GetJWTToken (store w) of
        Inl err \<Rightarrow> (Inl (GetTokenError err), w)
      | Inr token \<Rightarrow>
          if token = [] then (Inl NoJWTToken, w)
          else (case IsTokenExpired unmarshalClaims now token of
                  (expired, Some err) \<Rightarrow> (Inl (ValidateTokenFailed err), w)
                | (expired, None) \<Rightarrow>
                    if \<not> expired then (Inr token, w)
                    else (case RefreshToken net unmarshalToken w of
                            (Inl err, w') \<Rightarrow> (Inl (RefreshFailed err), w')
                          | (Inr newToken, w') \<Rightarrow> (Inr newToken, w'))))"

definition GetAuthorizationHeader ::
  "network \<Rightarrow> (string \<Rightarrow> JWTClaims option) \<Rightarrow> (string \<Rightarrow> TokenResponse option) \<Rightarrow>
   instant \<Rightarrow> world \<Rightarrow> (auth_error + string) \<times> world" where
  "GetAuthorizationHeader net unmarshalClaims unmarshalToken now w =
     (case GetValidJWTToken net unmarshalClaims unmarshalToken now w of
        (Inl err, w') \<Rightarrow> (Inl err, w')
      | (Inr token, w') \<Rightarrow> (Inr (''Bearer '' @ token), w'))"

section \<open>The workflow definition and the workflow calls of package digit\<close>

record Process =
  Name :: string
  Code :: string
  Description :: string
  Version :: string
  SLA :: int

record State =
  Code :: string
  Name :: string
  IsInitial :: bool
  IsParallel :: bool
  IsJoin :: bool
  SLA :: int

record Attributes =
  Roles :: "string list"

record AttributeValidation =
  Attributes :: Attributes
  AssigneeCheck :: bool

record Action =
  Name :: string
  CurrentState :: string
  NextState :: string
  Roles :: "string list"
  AttributeValidation :: AttributeValidation

record Workflow =
  Process :: Process
  States :: "State list"
  Actions :: "Action list"

record WorkflowDefinition =
  Workflow :: Workflow

subsection \<open>Formatting, as \<open>fmt.Sprintf\<close> does it for the verbs \<open>%d\<close> and \<open>%t\<close>\<close>

fun digits :: "nat \<Rightarrow> string" where
  "digits n = (if n < 10 then [char_of (48 + n)] else digits (n div 10) @ [char_of (48 + n mod 10)])"

declare digits.simps [simp del]

definition format_int :: "int \<Rightarrow> string" where
  "format_int i = (if i < 0 then ''-'' @ digits (nat (- i)) else digits (nat i))"

definition format_bool :: "bool \<Rightarrow> string" where
  "format_bool b = (if b then ''true'' else ''false'')"

definition NL :: string where
  "NL = [CHR 0x0A]"

datatype api_error =
    ServerURLRequired
  | TenantIDRequired
  | ProcessIDRequired
  | StateIDRequired
  | CreateRequestFailed
  | SendRequestFailed
  | ReadResponseFailed
  | APIRequestFailed nat string

text \<open>
  The part the three calls share: the headers they set, and what they do with the
  outcome of the request. The second component lists the requests that were sent.
\<close>

definition json_headers :: "string \<Rightarrow> string \<Rightarrow> (string \<times> string) list" where
  "json_headers jwtToken tenantID =
     [(''Content-Type'', ''application/json''),
      (''Authorization'', ''Bearer '' @ jwtToken),
      (''X-Tenant-ID'', tenantID)]"

definition post_json :: "network \<Rightarrow> request list \<Rightarrow> request \<Rightarrow> (api_error + string) \<times> request list" where
  "post_json net before req =
     (case net before req of
        NotSent \<Rightarrow> (Inl CreateRequestFailed, [])
      | SendFailed \<Rightarrow> (Inl SendRequestFailed, [req])
      | ReadFailed \<Rightarrow> (Inl ReadResponseFailed, [req])
      | Replied status resp \<Rightarrow>
          if status < 200 \<or> status \<ge> 300 then (Inl (APIRequestFailed status resp), [req])
          else (Inr resp, [req]))"

definition process_request ::
  "string \<Rightarrow> string \<Rightarrow> string \<Rightarrow> string \<Rightarrow> string \<Rightarrow> string \<Rightarrow> string \<Rightarrow> int \<Rightarrow> request" where
  \<open>process_request serverURL jwtToken tenantID name code description version sla =
     \<lparr>verb = ''POST'',
      url = TrimSuffix serverURL @ ''/workflow/v1/process'',
      headers = json_headers jwtToken tenantID,
      payload = Raw (''{'' @ NL @
        ''  "name": "'' @ name @ ''",'' @ NL @
        ''  "code": "'' @ code @ ''",'' @ NL @
        ''  "description": "'' @ description @ ''",'' @ NL @
        ''  "version": "'' @ version @ ''",'' @ NL @
        ''  "sla": '' @ format_int sla @ NL @
        ''}'')\<rparr>\<close>

definition CreateProcess ::
  "network \<Rightarrow> request list \<Rightarrow> string \<Rightarrow> string \<Rightarrow> string \<Rightarrow> string \<Rightarrow> string \<Rightarrow> string \<Rightarrow> string \<Rightarrow> int \<Rightarrow>
   (api_error + string) \<times> request list" where
  "CreateProcess net before serverURL jwtToken tenantID name code description version sla =
     (if serverURL = [] then (Inl ServerURLRequired, [])
      else if tenantID = [] then (Inl TenantIDRequired, [])
      else post_json net before
             (process_request serverURL jwtToken tenantID name code description version sla))"

definition state_request ::
  "string \<Rightarrow> string \<Rightarrow> string \<Rightarrow> string \<Rightarrow> string \<Rightarrow> string \<Rightarrow> bool \<Rightarrow> bool \<Rightarrow> bool \<Rightarrow> int \<Rightarrow> request" where
  \<open>state_request serverURL jwtToken tenantID processID code name isInitial isParallel isJoin sla =
     \<lparr>verb = ''POST'',
      url = TrimSuffix serverURL @ ''/workflow/v1/process/'' @ processID @ ''/state'',
      headers = json_headers jwtToken tenantID,
      payload = Raw (''{'' @ NL @
        ''  "code": "'' @ code @ ''",'' @ NL @
        ''  "name": "'' @ name @ ''",'' @ NL @
        ''  "isInitial": '' @ format_bool isInitial @ '','' @ NL @
        ''  "isParallel": '' @ format_bool isParallel @ '','' @ NL @
        ''  "isJoin": '' @ format_bool isJoin @ '','' @ NL @
        ''  "sla": '' @ format_int sla @ NL @
        ''}'')\<rparr>\<close>

definition CreateState ::
  "network \<Rightarrow> request list \<Rightarrow> string \<Rightarrow> string \<Rightarrow> string \<Rightarrow> string \<Rightarrow> string \<Rightarrow> string \<Rightarrow> bool \<Rightarrow> bool \<Rightarrow> bool \<Rightarrow> int \<Rightarrow>
   (api_error + string) \<times> request list" where
  "CreateState net before serverURL jwtToken tenantID processID code name isInitial isParallel isJoin sla =
     (if serverURL = [] then (Inl ServerURLRequired, [])
      else if tenantID = [] then (Inl TenantIDRequired, [])
      else if processID = [] then (Inl ProcessIDRequired, [])
      else post_json net before
             (state_request serverURL jwtToken tenantID processID code name isInitial isParallel isJoin sla))"

text \<open>The loop that writes the roles as a JSON array.\<close>

fun roles_loop :: "nat \<Rightarrow> string list \<Rightarrow> string \<Rightarrow> string" where
  \<open>roles_loop i [] rolesJSON = rolesJSON\<close>
| \<open>roles_loop i (role # roles) rolesJSON =
     roles_loop (Suc i) roles
       ((if i > 0 then rolesJSON @ '', '' else rolesJSON) @ ''"'' @ role @ ''"'')\<close>

definition roles_json :: "string list \<Rightarrow> string" where
  "roles_json roles = roles_loop 0 roles ''['' @ '']''"

definition action_request ::
  "string \<Rightarrow> string \<Rightarrow> string \<Rightarrow> string \<Rightarrow> string \<Rightarrow> string \<Rightarrow> string list \<Rightarrow> bool \<Rightarrow> request" where
  \<open>action_request serverURL jwtToken tenantID stateID name nextState roles assigneeCheck =
     \<lparr>verb = ''POST'',
      url = TrimSuffix serverURL @ ''/workflow/v1/state/'' @ stateID @ ''/action'',
      headers = json_headers jwtToken tenantID,
      payload = Raw (''{'' @ NL @
        ''  "name": "'' @ name @ ''",'' @ NL @
        ''  "nextState": "'' @ nextState @ ''",'' @ NL @
        ''  "attributeValidation": {'' @ NL @
        ''    "attributes": {'' @ NL @
        ''      "roles": '' @ roles_json roles @ NL @
        ''    },'' @ NL @
        ''    "assigneeCheck": '' @ format_bool assigneeCheck @ NL @
        ''  }'' @ NL @
        ''}'')\<rparr>\<close>

definition CreateAction ::
  "network \<Rightarrow> request list \<Rightarrow> string \<Rightarrow> string \<Rightarrow> string \<Rightarrow> string \<Rightarrow> string \<Rightarrow> string \<Rightarrow> string list \<Rightarrow> bool \<Rightarrow>
   (api_error + string) \<times> request list" where
  "CreateAction net before serverURL jwtToken tenantID stateID name nextState roles assigneeCheck =
     (if serverURL = [] then (Inl ServerURLRequired, [])
      else if tenantID = [] then (Inl TenantIDRequired, [])
      else if stateID = [] then (Inl StateIDRequired, [])
      else post_json net before
             (action_request serverURL jwtToken tenantID stateID name nextState roles assigneeCheck))"

section \<open>The command create-workflow\<close>

text \<open>
  What \<open>json.Unmarshal\<close> stores in a \<open>map[string]interface{}\<close>: the values of JSON. The
  decoder itself is the parameter \<open>unmarshal\<close> of the functions below; it gives the map,
  or nothing when the library reports an error.
\<close>

datatype jvalue =
    JNull
  | JBool bool
  | JNumber string
  | JString string
  | JArray "jvalue list"
  | JObject "(string \<times> jvalue) list"

text \<open>The type assertion \<open>result["id"].(string)\<close>.\<close>

definition id_string :: "(string \<rightharpoonup> jvalue) \<Rightarrow> string option" where
  "id_string result = (case result ''id'' of Some (JString s) \<Rightarrow> Some s | _ \<Rightarrow> None)"

text \<open>
  The run is observed through the requests it sends, each with the step of the command
  that sent it: the process, a state of the definition, or an action of the definition.
\<close>

datatype step = ProcessStep | StateStep State | ActionStep Action

type_synonym trace = "(step \<times> request) list"

datatype workflow_error =
    CreateProcessFailed api_error
  | ParseProcessResponseFailed
  | ExtractProcessIDFailed
  | CreateStateFailed string api_error
  | ParseStateResponseFailed string
  | ExtractStateIDFailed string
  | CurrentStateIDNotFound string
  | NextStateIDNotFound string
  | CreateActionFailed string api_error

text \<open>What the command prints when it succeeds: the process id and the two counts.\<close>

record report =
  ProcessID :: string
  StatesCount :: nat
  ActionsCount :: nat

text \<open>Step 2, the loop over the states; \<open>stateCodeToID\<close> is the map it fills.\<close>

fun create_states ::
  "network \<Rightarrow> (string \<Rightarrow> (string \<rightharpoonup> jvalue) option) \<Rightarrow> string \<Rightarrow> string \<Rightarrow> string \<Rightarrow> string \<Rightarrow>
   State list \<Rightarrow> (string \<rightharpoonup> string) \<Rightarrow> trace \<Rightarrow>
   (workflow_error + (string \<rightharpoonup> string)) \<times> trace" where
  "create_states net unmarshal serverURL jwtToken tenantID processID [] stateCodeToID tr =
     (Inr stateCodeToID, tr)"
| "create_states net unmarshal serverURL jwtToken tenantID processID (state # states) stateCodeToID tr =
     (case CreateState net (map snd tr) serverURL jwtToken tenantID processID
             (State.Code state) (State.Name state) (IsInitial state) (IsParallel state)
             (IsJoin state) (State.SLA state) of
        (Inl err, new) \<Rightarrow>
          (Inl (CreateStateFailed (State.Code state) err), tr @ map (Pair (StateStep state)) new)
      | (Inr stateResponse, new) \<Rightarrow>
          (case unmarshal stateResponse of
             None \<Rightarrow>
               (Inl (ParseStateResponseFailed (State.Code state)),
                tr @ map (Pair (StateStep state)) new)
           | Some stateResult \<Rightarrow>
               (case id_string stateResult of
                  None \<Rightarrow>
                    (Inl (ExtractStateIDFailed (State.Code state)),
                     tr @ map (Pair (StateStep state)) new)
                | Some stateID \<Rightarrow>
                    create_states net unmarshal serverURL jwtToken tenantID processID states
                      (stateCodeToID(State.Code state \<mapsto> stateID))
                      (tr @ map (Pair (StateStep state)) new))))"

text \<open>Step 3, the loop over the actions.\<close>

fun create_actions ::
  "network \<Rightarrow> string \<Rightarrow> string \<Rightarrow> string \<Rightarrow> (string \<rightharpoonup> string) \<Rightarrow> Action list \<Rightarrow> trace \<Rightarrow>
   (workflow_error + unit) \<times> trace" where
  "create_actions net serverURL jwtToken tenantID stateCodeToID [] tr = (Inr (), tr)"
| "create_actions net serverURL jwtToken tenantID stateCodeToID (action # actions) tr =
     (case stateCodeToID (CurrentState action) of
        None \<Rightarrow> (Inl (CurrentStateIDNotFound (CurrentState action)), tr)
      | Some currentStateID \<Rightarrow>
          (case stateCodeToID (NextState action) of
             None \<Rightarrow> (Inl (NextStateIDNotFound (NextState action)), tr)
           | Some nextStateID \<Rightarrow>
               (case CreateAction net (map snd tr) serverURL jwtToken tenantID currentStateID
                       (Action.Name action) nextStateID
                       (Attributes.Roles (Attributes (AttributeValidation action)))
                       (AssigneeCheck (AttributeValidation action)) of
                  (Inl err, new) \<Rightarrow>
                    (Inl (CreateActionFailed (Action.Name action) err),
                     tr @ map (Pair (ActionStep action)) new)
                | (Inr actionResponse, new) \<Rightarrow>
                    create_actions net serverURL jwtToken tenantID stateCodeToID actions
                      (tr @ map (Pair (ActionStep action)) new))))"

text \<open>
  The command from its step 1 on. What comes before (flags, the stored configuration,
  the tenant id taken from the token, the YAML file) gives the server URL, the token, the
  tenant id and the workflow definition; they are the arguments here.
\<close>

definition createWorkflow ::
  "network \<Rightarrow> (string \<Rightarrow> (string \<rightharpoonup> jvalue) option) \<Rightarrow> string \<Rightarrow> string \<Rightarrow> string \<Rightarrow>
   WorkflowDefinition \<Rightarrow> (workflow_error + report) \<times> trace" where
  "createWorkflow net unmarshal serverURL jwtToken tenantID workflowDef =
     (let wf = Workflow workflowDef in
      case CreateProcess net [] serverURL jwtToken tenantID
             (Process.Name (Process wf)) (Process.Code (Process wf))
             (Description (Process wf)) (Version (Process wf)) (Process.SLA (Process wf)) of
        (Inl err, new) \<Rightarrow> (Inl (CreateProcessFailed err), map (Pair ProcessStep) new)
      | (Inr processResponse, new) \<Rightarrow>
          (case unmarshal processResponse of
             None \<Rightarrow> (Inl ParseProcessResponseFailed, map (Pair ProcessStep) new)
           | Some processResult \<Rightarrow>
               (case id_string processResult of
                  None \<Rightarrow> (Inl ExtractProcessIDFailed, map (Pair ProcessStep) new)
                | Some processID \<Rightarrow>
                    (case create_states net unmarshal serverURL jwtToken tenantID processID
                            (States wf) Map.empty (map (Pair ProcessStep) new) of
                       (Inl err, tr) \<Rightarrow> (Inl err, tr)
                     | (Inr stateCodeToID, tr) \<Rightarrow>
                         (case create_actions net serverURL jwtToken tenantID stateCodeToID
                                 (Actions wf) tr of
                            (Inl err, tr') \<Rightarrow> (Inl err, tr')
                          | (Inr u, tr') \<Rightarrow>
                              (Inr \<lparr>ProcessID = processID,
                                    StatesCount = length (States wf),
                                    ActionsCount = length (Actions wf)\<rparr>, tr'))))))"

section \<open>Notions of the specification\<close>





text \<open>
  A Credential Set is complete when each of its six fields is filled in; the
  configuration can be written when its directory and its file can.
\<close>

definition complete :: "AuthConfig \<Rightarrow> bool" where
  "complete ac =
     (ServerURL ac \<noteq> [] \<and> Realm ac \<noteq> [] \<and> ClientID ac \<noteq> [] \<and> ClientSecret ac \<noteq> []
      \<and> Username ac \<noteq> [] \<and> Password ac \<noteq> [])"


text \<open>The request a refresh sends for a Credential Set.\<close>

definition grant_request :: "AuthConfig \<Rightarrow> request" where
  "grant_request ac =
     token_request (ServerURL ac) (Realm ac) (ClientID ac) (ClientSecret ac) (Username ac)
       (Password ac)"

text \<open>
  The calls a run of create-workflow is meant to make, in order: the process, every state
  of the definition, every action of the definition.
\<close>

definition planned_steps :: "WorkflowDefinition \<Rightarrow> step list" where
  "planned_steps workflowDef =
     ProcessStep # map StateStep (States (Workflow workflowDef))
       @ map ActionStep (Actions (Workflow workflowDef))"

text \<open>
  The request that creates a step of the definition: for the process, the request built
  from its fields; for a state, the request built from its fields under some process
  identifier; for an action, the request built from its name, roles and assignee check
  under some state identifiers.
\<close>

definition creation_request ::
  "string \<Rightarrow> string \<Rightarrow> string \<Rightarrow> WorkflowDefinition \<Rightarrow> step \<Rightarrow> request \<Rightarrow> bool" where
  "creation_request serverURL jwtToken tenantID workflowDef st req =
     (case st of
        ProcessStep \<Rightarrow>
          req = process_request serverURL jwtToken tenantID
                  (Process.Name (Process (Workflow workflowDef)))
                  (Process.Code (Process (Workflow workflowDef)))
                  (Description (Process (Workflow workflowDef)))
                  (Version (Process (Workflow workflowDef)))
                  (Process.SLA (Process (Workflow workflowDef)))
      | StateStep state \<Rightarrow>
          (\<exists>processID.
             req = state_request serverURL jwtToken tenantID processID (State.Code state)
                     (State.Name state) (IsInitial state) (IsParallel state) (IsJoin state)
                     (State.SLA state))
      | ActionStep action \<Rightarrow>
          (\<exists>stateID nextStateID.
             req = action_request serverURL jwtToken tenantID stateID (Action.Name action)
                     nextStateID (Attributes.Roles (Attributes (AttributeValidation action)))
                     (AssigneeCheck (AttributeValidation action))))"

text \<open>
  A call succeeds when the service replies with a status from 200 to 299 and, for the
  process and for a state, the body is an object with a string \<open>id\<close>. The call at position
  \<open>i\<close> of a trace was answered by the service after the calls before it.
\<close>

definition reply_ok :: "(string \<Rightarrow> (string \<rightharpoonup> jvalue) option) \<Rightarrow> step \<Rightarrow> outcome \<Rightarrow> bool" where
  "reply_ok unmarshal st out =
     (case out of
        Replied status resp \<Rightarrow>
          200 \<le> status \<and> status < 300 \<and>
          (case st of
             ActionStep a \<Rightarrow> True
           | _ \<Rightarrow> (case unmarshal resp of None \<Rightarrow> False | Some result \<Rightarrow> id_string result \<noteq> None))
      | _ \<Rightarrow> False)"

definition answered_ok ::
  "network \<Rightarrow> (string \<Rightarrow> (string \<rightharpoonup> jvalue) option) \<Rightarrow> trace \<Rightarrow> nat \<Rightarrow> bool" where
  "answered_ok net unmarshal tr i =
     reply_ok unmarshal (fst (tr ! i)) (net (map snd (take i tr)) (snd (tr ! i)))"

definition all_ok :: "network \<Rightarrow> (string \<Rightarrow> (string \<rightharpoonup> jvalue) option) \<Rightarrow> trace \<Rightarrow> bool" where
  "all_ok net unmarshal tr = (\<forall>i < length tr. answered_ok net unmarshal tr i)"

definition all_but_last_ok :: "network \<Rightarrow> (string \<Rightarrow> (string \<rightharpoonup> jvalue) option) \<Rightarrow> trace \<Rightarrow> bool" where
  "all_but_last_ok net unmarshal tr = (\<forall>i. Suc i < length tr \<longrightarrow> answered_ok net unmarshal tr i)"

text \<open>
  The unresolved reference of an action, if it has one: its current state when that is
  not the code of a state of the definition, else its next state when that is not; and
  the first unresolved reference among the actions, in their order.
\<close>

definition missing_reference :: "State list \<Rightarrow> Action \<Rightarrow> workflow_error option" where
  "missing_reference states a =
     (if CurrentState a \<notin> set (map State.Code states)
      then Some (CurrentStateIDNotFound (CurrentState a))
      else if NextState a \<notin> set (map State.Code states)
      then Some (NextStateIDNotFound (NextState a))
      else None)"

fun first_missing_reference :: "State list \<Rightarrow> Action list \<Rightarrow> workflow_error option" where
  "first_missing_reference states [] = None"
| "first_missing_reference states (a # actions) =
     (case missing_reference states a of
        Some err \<Rightarrow> Some err
      | None \<Rightarrow> first_missing_reference states actions)"

text \<open>The errors of a creation call or of reading its response.\<close>

fun creation_failure :: "workflow_error \<Rightarrow> bool" where
  "creation_failure (CurrentStateIDNotFound code) = False"
| "creation_failure (NextStateIDNotFound code) = False"
| "creation_failure err = True"

text \<open>
  A service that answers every request with a success status and an object whose \<open>id\<close>
  is a non-empty string.
\<close>

definition obliging :: "network \<Rightarrow> (string \<Rightarrow> (string \<rightharpoonup> jvalue) option) \<Rightarrow> bool" where
  "obliging net unmarshal =
     (\<forall>before req. \<exists>status resp result ident.
        net before req = Replied status resp \<and> 200 \<le> status \<and> status < 300
        \<and> unmarshal resp = Some result \<and> id_string result = Some ident \<and> ident \<noteq> [])"

section \<open>Sample inputs\<close>

text \<open>
  The inputs the examples below run on. The library decoders are parameters of the
  model; each sample decoder is a table that gives, for the few texts the examples use,
  what \<open>json.Unmarshal\<close> gives for them, and an error for any other text.
\<close>

definition no_claims :: JWTClaims where
  "no_claims = \<lparr>Sub = [], Iss = [], PreferredUsername = [], Email = [], Name = [],
                 GivenName = [], FamilyName = [], Exp = 0, Iat = 0\<rparr>"

definition acme_payload :: string where
  \<open>acme_payload = ''{"iss":"https://host/x/realms/ACME","sub":"u-123","exp":2000000000}''\<close>

definition acme_claims :: JWTClaims where
  "acme_claims = no_claims\<lparr>Sub := ''u-123'', Iss := ''https://host/x/realms/ACME'', Exp := 2000000000\<rparr>"

definition host_payload :: string where
  \<open>host_payload = ''{"iss":"https://host"}''\<close>

definition host_claims :: JWTClaims where
  "host_claims = no_claims\<lparr>Iss := ''https://host''\<rparr>"

definition old_payload :: string where
  \<open>old_payload = ''{"exp":1000}''\<close>

definition old_claims :: JWTClaims where
  "old_claims = no_claims\<lparr>Exp := 1000\<rparr>"

definition far_payload :: string where
  \<open>far_payload = ''{"exp":9223372036854775807}''\<close>

definition far_claims :: JWTClaims where
  "far_claims = no_claims\<lparr>Exp := 9223372036854775807\<rparr>"

text \<open>What \<open>json.Marshal\<close> writes for a claim set whose strings need no escaping.\<close>

definition sample_marshal_claims :: "JWTClaims \<Rightarrow> string" where
  \<open>sample_marshal_claims c =
     ''{"sub":"'' @ Sub c @ ''","iss":"'' @ Iss c @
     ''","preferred_username":"'' @ PreferredUsername c @
     ''","email":"'' @ Email c @ ''","name":"'' @ JWTClaims.Name c @
     ''","given_name":"'' @ GivenName c @ ''","family_name":"'' @ FamilyName c @
     ''","exp":'' @ format_int (sint (Exp c)) @ '',"iat":'' @ format_int (sint (Iat c)) @ ''}''\<close>

definition acme_marshalled :: string where
  \<open>acme_marshalled = ''{"sub":"u-123","iss":"https://host/x/realms/ACME","preferred_username":"","email":"","name":"","given_name":"","family_name":"","exp":2000000000,"iat":0}''\<close>

definition sample_unmarshal_claims :: "string \<Rightarrow> JWTClaims option" where
  "sample_unmarshal_claims decoded =
     (if decoded = acme_payload \<or> decoded = acme_marshalled then Some acme_claims
      else if decoded = host_payload then Some host_claims
      else if decoded = old_payload then Some old_claims
      else if decoded = far_payload then Some far_claims
      else None)"

text \<open>Tokens: a header, the payload in unpadded base64url, a signature.\<close>

definition acme_token :: string where
  "acme_token = ''eyJhbGciOiJSUzI1NiJ9.eyJpc3MiOiJodHRwczovL2hvc3QveC9yZWFsbXMvQUNNRSIsInN1YiI6InUtMTIzIiwiZXhwIjoyMDAwMDAwMDAwfQ.c2ln''"

definition acme_token_resigned :: string where
  "acme_token_resigned = ''eyJhbGciOiJub25lIn0.eyJpc3MiOiJodHRwczovL2hvc3QveC9yZWFsbXMvQUNNRSIsInN1YiI6InUtMTIzIiwiZXhwIjoyMDAwMDAwMDAwfQ.''"

definition host_token :: string where
  "host_token = ''eyJhbGciOiJSUzI1NiJ9.eyJpc3MiOiJodHRwczovL2hvc3QifQ.c2ln''"

definition old_token :: string where
  "old_token = ''eyJhbGciOiJSUzI1NiJ9.eyJleHAiOjEwMDB9.c2ln''"

definition far_token :: string where
  "far_token = ''eyJhbGciOiJSUzI1NiJ9.eyJleHAiOjkyMjMzNzIwMzY4NTQ3NzU4MDd9.c2ln''"

text \<open>A stored Credential Set, a token endpoint that grants \<open>T2\<close>, and the stored configuration.\<close>

definition sample_credentials :: AuthConfig where
  "sample_credentials =
     \<lparr>ServerURL = ''https://kc.example'', Realm = ''ACME'', ClientID = ''cli'',
      ClientSecret = ''s3cret'', Username = ''alice'', Password = ''pw''\<rparr>"

definition token_endpoint_T2 :: network where
  \<open>token_endpoint_T2 before req =
     (if verb req = ''POST''
         \<and> url req = ''https://kc.example/keycloak/realms/ACME/protocol/openid-connect/token''
      then Replied 200 ''{"access_token":"T2"}''
      else Replied 404 [])\<close>





definition sample_unmarshal_token :: "string \<Rightarrow> TokenResponse option" where
  \<open>sample_unmarshal_token resp =
     (if resp = ''{"access_token":"T2"}''
      then Some \<lparr>AccessToken = ''T2'', ExpiresIn = 0, RefreshExpiresIn = 0,
                  RefreshTokenField = [], TokenType = [], NotBeforePolicy = 0,
                  SessionState = [], Scope = []\<rparr>
      else None)\<close>

definition sample_config :: "string \<Rightarrow> AuthConfig option \<Rightarrow> Config" where
  "sample_config token auth = \<lparr>Server = ''https://digit.example'', JWTToken = token, Auth = auth\<rparr>"

definition sample_world :: "string \<Rightarrow> AuthConfig option \<Rightarrow> world" where
  "sample_world token auth =
     \<lparr>store = \<lparr>config_yaml = FileHolds (sample_config token auth),
                dir_creatable = True, file_writable = True\<rparr>,
      sent = []\<rparr>"

text \<open>A workflow definition, and a workflow service that answers its creation calls.\<close>

definition state_A :: State where
  "state_A = \<lparr>State.Code = ''A'', State.Name = ''Start'', IsInitial = True,
              IsParallel = False, IsJoin = False, State.SLA = 0\<rparr>"

definition state_B :: State where
  "state_B = \<lparr>State.Code = ''B'', State.Name = ''Done'', IsInitial = False,
              IsParallel = False, IsJoin = False, State.SLA = 0\<rparr>"

definition action_from :: "string \<Rightarrow> string \<Rightarrow> Action" where
  "action_from current next =
     \<lparr>Action.Name = ''GO'', CurrentState = current, NextState = next, Action.Roles = [],
      AttributeValidation =
        \<lparr>Attributes = \<lparr>Attributes.Roles = [''CITIZEN'']\<rparr>, AssigneeCheck = False\<rparr>\<rparr>"

definition workflow_with :: "Action list \<Rightarrow> WorkflowDefinition" where
  "workflow_with actions =
     \<lparr>Workflow =
        \<lparr>Process = \<lparr>Process.Name = ''Demo'', Process.Code = ''WF1'', Description = ''demo'',
                     Version = ''1.0'', Process.SLA = 86400\<rparr>,
         States = [state_A, state_B],
         Actions = actions\<rparr>\<rparr>"

definition workflow_service :: network where
  \<open>workflow_service before req =
     (if url req = ''https://digit.example/workflow/v1/process''
      then Replied 200 ''{"id":"p1"}''
      else if req = state_request ''https://digit.example'' ''jwt'' ''ACME'' ''p1''
                      ''A'' ''Start'' True False False 0
      then Replied 201 ''{"id":"s1"}''
      else if req = state_request ''https://digit.example'' ''jwt'' ''ACME'' ''p1''
                      ''B'' ''Done'' False False False 0
      then Replied 201 ''{"id":"s2"}''
      else Replied 201 ''{"id":"a1"}'')\<close>

definition unreachable_service :: network where
  "unreachable_service before req = SendFailed"

definition sample_unmarshal_object :: "string \<Rightarrow> (string \<rightharpoonup> jvalue) option" where
  \<open>sample_unmarshal_object resp =
     (if resp = ''{"id":"p1"}'' then Some [''id'' \<mapsto> JString ''p1'']
      else if resp = ''{"id":"s1"}'' then Some [''id'' \<mapsto> JString ''s1'']
      else if resp = ''{"id":"s2"}'' then Some [''id'' \<mapsto> JString ''s2'']
      else if resp = ''{"id":"a1"}'' then Some [''id'' \<mapsto> JString ''a1'']
      else None)\<close>

section \<open>Splitting\<close>

lemma Split_not_Nil: "Split sep s \<noteq> []"
  by (induction s) (auto split: list.splits)

lemma length_Split: "length (Split sep s) = Suc (count_list s sep)"
  by (induction s) (auto split: list.splits simp: Split_not_Nil)

lemma Split_no_sep: "sep \<notin> set a \<Longrightarrow> Split sep a = [a]"
  by (induction a) auto

lemma Split_append: "Split sep (a @ sep # b) = Split sep a @ Split sep b"
proof (induction a)
  case Nil
  show ?case by simp
next
  case (Cons c a)
  obtain p ps where "Split sep a = p # ps"
    using Split_not_Nil by (cases "Split sep a") auto
  with Cons show ?case by simp
qed

lemma Split_three:
  assumes "sep \<notin> set h" "sep \<notin> set m" "sep \<notin> set s"
  shows "Split sep (h @ sep # m @ sep # s) = [h, m, s]"
  using assms by (simp add: Split_append Split_no_sep)


lemma Split_single: "Split sep tok = [p] \<Longrightarrow> tok = p \<and> sep \<notin> set p"
proof (induction tok arbitrary: p)
  case Nil
  then show ?case by simp
next
  case (Cons c cs)
  then show ?case by (auto split: if_splits list.splits simp: Split_not_Nil)
qed


lemma last_Split: "sep \<notin> set r \<Longrightarrow> last (Split sep (pre @ sep # r)) = r"
  by (simp add: Split_append Split_no_sep)

lemma last_Split_empty_iff: "last (Split sep s) = [] \<longleftrightarrow> s = [] \<or> last s = sep"
proof (induction s)
  case Nil
  show ?case by simp
next
  case (Cons c cs)
  obtain p ps where ps: "Split sep cs = p # ps"
    using Split_not_Nil by (cases "Split sep cs") auto
  show ?case
  proof (cases "c = sep")
    case True
    with Cons ps show ?thesis by auto
  next
    case False
    show ?thesis
    proof (cases ps)
      case Nil
      with ps have "cs = p \<and> sep \<notin> set p" by (simp add: Split_single)
      with ps Nil False Cons show ?thesis by auto
    next
      case (Cons q qs)
      with ps False Cons.IH show ?thesis by auto
    qed
  qed
qed

section \<open>The base64 layer\<close>

lemma lookup_index_nth:
  "distinct xs \<Longrightarrow> i < length xs \<Longrightarrow> lookup_index xs (xs ! i) = Some i"
proof (induction xs arbitrary: i)
  case Nil
  then show ?case by simp
next
  case (Cons x xs)
  then show ?case by (cases i) auto
qed

lemma distinct_encodeURL: "distinct encodeURL"
  by (simp add: encodeURL_def)

lemma length_encodeURL: "length encodeURL = 64"
  by (simp add: encodeURL_def)

lemma decodeMap_enc6: "i < 64 \<Longrightarrow> decodeMap (enc6 i) = Some i"
  by (simp add: decodeMap_def enc6_def lookup_index_nth distinct_encodeURL length_encodeURL)

lemma enc6_in_alphabet: "i < 64 \<Longrightarrow> enc6 i \<in> set encodeURL"
  by (simp add: enc6_def length_encodeURL)

lemma padding_not_in_alphabet: "decodeMap CHR ''='' = None"
  by (simp add: decodeMap_def encodeURL_def)

text \<open>Three bytes are four six-bit values, and back.\<close>

lemma sextets_24:
  fixes a b c :: nat
  shows "(a div 4) * 262144 + ((a mod 4) * 16 + b div 16) * 4096
           + ((b mod 16) * 4 + c div 64) * 64 + c mod 64
         = a * 65536 + b * 256 + c"
proof -
  define a1 a0 b1 b0 c1 c0 where
    "a1 = a div 4" and "a0 = a mod 4" and "b1 = b div 16" and "b0 = b mod 16"
    and "c1 = c div 64" and "c0 = c mod 64"
  have "a = a1 * 4 + a0" "b = b1 * 16 + b0" "c = c1 * 64 + c0"
    by (simp_all add: a1_def a0_def b1_def b0_def c1_def c0_def)
  then have "a * 65536 + b * 256 + c
        = a1 * 262144 + (a0 * 16 + b1) * 4096 + (b0 * 4 + c1) * 64 + c0"
    by (simp add: algebra_simps)
  then show ?thesis
    by (simp add: a1_def a0_def b1_def b0_def c1_def c0_def)
qed

lemma char_of_byte2: "char_of ((a::nat) * 256 + b) = (char_of b :: char)"
  by (metis char_of_mod_256 mod_mult_self3)

lemma char_of_byte3: "char_of ((a::nat) * 65536 + b * 256 + c) = (char_of c :: char)"
proof -
  have "a * 65536 + b * 256 + c = (a * 256 + b) * 256 + c" by simp
  then show ?thesis by (simp only: char_of_byte2)
qed

lemma quantum3:
  fixes a b c :: nat
  assumes "b < 256" "c < 256"
  shows "quantum_bytes (a div 4) ((a mod 4) * 16 + b div 16) ((b mod 16) * 4 + c div 64) (c mod 64) 3
         = [char_of a, char_of b, char_of c]"
proof -
  let ?v = "a * 65536 + b * 256 + c"
  have d1: "?v div 65536 = a" using assms by simp
  have "?v = (a * 256 + b) * 256 + c" by simp
  then have d2: "?v div 256 = a * 256 + b" using assms by simp
  show ?thesis
    unfolding quantum_bytes_def Let_def sextets_24 d1 d2
    by (simp add: char_of_byte2 char_of_byte3)
qed

lemma quantum2:
  fixes a b :: nat
  assumes "b < 256"
  shows "quantum_bytes (a div 4) ((a mod 4) * 16 + b div 16) ((b mod 16) * 4) 0 2
         = [char_of a, char_of b]"
  using quantum3[of b 0 a] assms by (simp add: quantum_bytes_def Let_def)

lemma quantum1:
  fixes a :: nat
  shows "quantum_bytes (a div 4) ((a mod 4) * 16) 0 0 1 = [char_of a]"
  using quantum3[of 0 0 a] by (simp add: quantum_bytes_def Let_def)

lemma sextet1: "(of_char x :: nat) div 4 < 64"
proof -
  have "(of_char x :: nat) < 256" by simp
  then show ?thesis by linarith
qed

lemma sextet2: "((of_char x :: nat) mod 4) * 16 + (of_char y :: nat) div 16 < 64"
proof -
  have "(of_char x :: nat) mod 4 < 4" by simp
  then have "((of_char x :: nat) mod 4) * 16 \<le> 48" by linarith
  moreover have "(of_char y :: nat) < 256" by simp
  then have "(of_char y :: nat) div 16 < 16" by linarith
  ultimately show ?thesis by linarith
qed

lemma sextet2_last: "((of_char x :: nat) mod 4) * 16 < 64"
  using sextet2[of x "char_of (0::nat)"] by simp

lemma sextet3: "((of_char y :: nat) mod 16) * 4 + (of_char z :: nat) div 64 < 64"
proof -
  have "(of_char y :: nat) mod 16 < 16" by simp
  then have "((of_char y :: nat) mod 16) * 4 \<le> 60" by linarith
  moreover have "(of_char z :: nat) < 256" by simp
  then have "(of_char z :: nat) div 64 < 4" by linarith
  ultimately show ?thesis by linarith
qed

lemma sextet3_last: "((of_char y :: nat) mod 16) * 4 < 64"
  using sextet3[of y "char_of (0::nat)"] by simp

lemma sextet4: "(of_char z :: nat) mod 64 < 64"
  by simp

lemmas decode_sextets =
  decodeMap_enc6[OF sextet1] decodeMap_enc6[OF sextet2] decodeMap_enc6[OF sextet2_last]
  decodeMap_enc6[OF sextet3] decodeMap_enc6[OF sextet3_last] decodeMap_enc6[OF sextet4]

lemma add_padding_replicate:
  "add_padding p = p @ replicate ((4 - length p mod 4) mod 4) CHR ''=''"
proof (induction p rule: add_padding.induct)
  case (1 payload)
  show ?case
  proof (cases "length payload mod 4 = 0")
    case True
    then show ?thesis by (subst add_padding.simps) simp
  next
    case False
    have "length payload mod 4 < 4" by simp
    then consider "length payload mod 4 = 1" | "length payload mod 4 = 2"
      | "length payload mod 4 = 3"
      using False by linarith
    then have step:
      "(4 - length payload mod 4) mod 4 = Suc ((4 - Suc (length payload) mod 4) mod 4)"
      by cases (simp_all add: mod_Suc)
    have "add_padding payload = add_padding (payload @ ''='')"
      using False by (subst add_padding.simps) simp
    also have "\<dots> = (payload @ ''='') @ replicate ((4 - Suc (length payload) mod 4) mod 4) CHR ''=''"
      using 1[OF False] by simp
    also have "\<dots> = payload @ replicate ((4 - length payload mod 4) mod 4) CHR ''=''"
      unfolding step by (simp add: replicate_app_Cons_same)
    finally show ?thesis .
  qed
qed

lemma decode_padded_RawURLEncode:
  "decode_loop Q0
     (RawURLEncode bs @ replicate ((4 - length (RawURLEncode bs) mod 4) mod 4) CHR ''='')
   = Some bs"
proof (induction bs rule: RawURLEncode.induct)
  case 1
  show ?case by simp
next
  case (2 x)
  have "quantum_bytes (of_char x div 4) (of_char x mod 4 * 16) 0 0 1 = [x]"
    using quantum1[of "of_char x"] by simp
  then show ?case
    by (simp add: Let_def decode_sextets padding_not_in_alphabet numeral_2_eq_2)
next
  case (3 x y)
  have "quantum_bytes (of_char x div 4) (of_char x mod 4 * 16 + of_char y div 16)
          (of_char y mod 16 * 4) 0 2 = [x, y]"
    using quantum2[of "of_char y" "of_char x"] by simp
  then show ?case
    by (simp add: Let_def decode_sextets padding_not_in_alphabet)
next
  case (4 x y z rest)
  have q: "quantum_bytes (of_char x div 4) (of_char x mod 4 * 16 + of_char y div 16)
          (of_char y mod 16 * 4 + of_char z div 64) (of_char z mod 64) 3 = [x, y, z]"
    using quantum3[of "of_char y" "of_char z" "of_char x"] by simp
  have len: "length (RawURLEncode (x # y # z # rest)) mod 4 = length (RawURLEncode rest) mod 4"
    by (simp add: Let_def)
  show ?case
    unfolding len using 4 q
    by (simp add: Let_def decode_sextets)
qed

lemma DecodeString_RawURLEncode: "DecodeString (add_padding (RawURLEncode bs)) = Some bs"
  by (simp add: DecodeString_def add_padding_replicate decode_padded_RawURLEncode)

lemma set_RawURLEncode: "set (RawURLEncode bs) \<subseteq> set encodeURL"
  by (induction bs rule: RawURLEncode.induct)
     (simp_all add: Let_def enc6_in_alphabet sextet1 sextet2 sextet2_last sextet3 sextet3_last)

lemma dot_not_in_RawURLEncode: "CHR ''.'' \<notin> set (RawURLEncode bs)"
proof -
  have "CHR ''.'' \<notin> set encodeURL" by (simp add: encodeURL_def)
  then show ?thesis using set_RawURLEncode by blast
qed

section \<open>The sample tokens, decoded\<close>

lemmas decode_eval =
  DecodeJWT_def DecodeString_def decodeMap_def encodeURL_def quantum_bytes_def
  add_padding.simps char_of_eq_iff take_bit_eq_mod Let_def

lemma DecodeJWT_acme_token: "DecodeJWT sample_unmarshal_claims acme_token = Inr acme_claims"
  by (simp add: acme_token_def decode_eval sample_unmarshal_claims_def acme_payload_def)

lemma DecodeJWT_acme_token_resigned:
  "DecodeJWT sample_unmarshal_claims acme_token_resigned = Inr acme_claims"
  by (simp add: acme_token_resigned_def decode_eval sample_unmarshal_claims_def acme_payload_def)

lemma DecodeJWT_host_token: "DecodeJWT sample_unmarshal_claims host_token = Inr host_claims"
  by (simp add: host_token_def decode_eval sample_unmarshal_claims_def acme_payload_def
      acme_marshalled_def host_payload_def)

lemma DecodeJWT_old_token: "DecodeJWT sample_unmarshal_claims old_token = Inr old_claims"
  by (simp add: old_token_def decode_eval sample_unmarshal_claims_def acme_payload_def
      acme_marshalled_def host_payload_def old_payload_def)

lemma DecodeJWT_far_token: "DecodeJWT sample_unmarshal_claims far_token = Inr far_claims"
  by (simp add: far_token_def decode_eval sample_unmarshal_claims_def acme_payload_def
      acme_marshalled_def host_payload_def old_payload_def far_payload_def)

section \<open>Decoding a token\<close>




lemma DecodeJWT_three:
  assumes "Split CHR ''.'' token = [hdr, mid, sig]"
  shows "DecodeJWT unmarshal token =
           (case DecodeString (add_padding mid) of
              None \<Rightarrow> Inl PayloadDecodeFailed
            | Some decoded \<Rightarrow>
                (case unmarshal decoded of
                   None \<Rightarrow> Inl ClaimsParseFailed
                 | Some claims \<Rightarrow> Inr claims))"
  using assms by (simp add: DecodeJWT_def)



text \<open>
  C9. A claim set is serialised to JSON, the text is base64url-encoded without padding
  and placed as the middle segment of a three-segment token: \<open>DecodeJWT\<close> gives the claim
  set back. The JSON library is a parameter, so its own round trip (the decoder reads
  what the encoder wrote for this claim set) is the first hypothesis; the other two say
  that the token has three segments.
\<close>

theorem DecodeJWT_roundtrip:
  assumes "unmarshal (marshal claims) = Some claims"
    and "CHR ''.'' \<notin> set hdr" and "CHR ''.'' \<notin> set sig"
  shows "DecodeJWT unmarshal (hdr @ ''.'' @ RawURLEncode (marshal claims) @ ''.'' @ sig)
           = Inr claims"
proof -
  have "Split CHR ''.'' (hdr @ ''.'' @ RawURLEncode (marshal claims) @ ''.'' @ sig)
          = [hdr, RawURLEncode (marshal claims), sig]"
    using assms(2,3) Split_three[OF _ dot_not_in_RawURLEncode] by simp
  then show ?thesis
    using assms(1) by (simp add: DecodeJWT_three DecodeString_RawURLEncode)
qed

lemma digits_less_10: "n < 10 \<Longrightarrow> digits n = [char_of (48 + n)]"
  by (subst digits.simps) simp

lemma digits_ge_10: "10 \<le> n \<Longrightarrow> digits n = digits (n div 10) @ [char_of (48 + n mod 10)]"
  by (subst digits.simps) simp

lemma sample_marshal_acme: "sample_marshal_claims acme_claims = acme_marshalled"
  by (simp add: sample_marshal_claims_def acme_claims_def no_claims_def acme_marshalled_def
      format_int_def digits_less_10 digits_ge_10 char_of_eq_iff take_bit_eq_mod)

theorem DecodeJWT_roundtrip_witness:
  "sample_unmarshal_claims (sample_marshal_claims acme_claims) = Some acme_claims
   \<and> DecodeJWT sample_unmarshal_claims
        (''eyJhbGciOiJSUzI1NiJ9'' @ ''.'' @ RawURLEncode (sample_marshal_claims acme_claims)
          @ ''.'' @ ''c2ln'')
      = Inr acme_claims"
proof -
  have rt: "sample_unmarshal_claims (sample_marshal_claims acme_claims) = Some acme_claims"
    by (simp add: sample_marshal_acme sample_unmarshal_claims_def)
  have h: "CHR ''.'' \<notin> set ''eyJhbGciOiJSUzI1NiJ9''" and s: "CHR ''.'' \<notin> set ''c2ln''"
    by simp_all
  from DecodeJWT_roundtrip[of sample_unmarshal_claims sample_marshal_claims, OF rt h s] rt
  show ?thesis by simp
qed

text \<open>
  C10. Two tokens that both have exactly three segments and the same middle segment give
  the same result in \<open>DecodeJWT\<close>, \<open>ExtractTenantID\<close>, \<open>ExtractClientID\<close> and (at the same
  clock reading) \<open>IsTokenExpired\<close>, whatever their header and signature segments are.
\<close>

theorem same_middle_segment_same_results:
  assumes "Split CHR ''.'' token1 = [hdr1, mid, sig1]"
    and "Split CHR ''.'' token2 = [hdr2, mid, sig2]"
  shows "DecodeJWT unmarshal token1 = DecodeJWT unmarshal token2
       \<and> ExtractTenantID unmarshal token1 = ExtractTenantID unmarshal token2
       \<and> ExtractClientID unmarshal token1 = ExtractClientID unmarshal token2
       \<and> IsTokenExpired unmarshal now token1 = IsTokenExpired unmarshal now token2"
proof -
  have "DecodeJWT unmarshal token1 = DecodeJWT unmarshal token2"
    by (simp add: DecodeJWT_three[OF assms(1)] DecodeJWT_three[OF assms(2)])
  then show ?thesis
    by (simp add: ExtractTenantID_def ExtractClientID_def IsTokenExpired_def)
qed

theorem same_middle_segment_same_results_witness:
  "Split CHR ''.'' acme_token =
     [''eyJhbGciOiJSUzI1NiJ9'',
      ''eyJpc3MiOiJodHRwczovL2hvc3QveC9yZWFsbXMvQUNNRSIsInN1YiI6InUtMTIzIiwiZXhwIjoyMDAwMDAwMDAwfQ'',
      ''c2ln'']
   \<and> Split CHR ''.'' acme_token_resigned =
     [''eyJhbGciOiJub25lIn0'',
      ''eyJpc3MiOiJodHRwczovL2hvc3QveC9yZWFsbXMvQUNNRSIsInN1YiI6InUtMTIzIiwiZXhwIjoyMDAwMDAwMDAwfQ'',
      '''']
   \<and> DecodeJWT sample_unmarshal_claims acme_token_resigned = Inr acme_claims
   \<and> ExtractTenantID sample_unmarshal_claims acme_token
       = ExtractTenantID sample_unmarshal_claims acme_token_resigned
   \<and> ExtractClientID sample_unmarshal_claims acme_token
       = ExtractClientID sample_unmarshal_claims acme_token_resigned
   \<and> IsTokenExpired sample_unmarshal_claims 1700000000000000000 acme_token
       = IsTokenExpired sample_unmarshal_claims 1700000000000000000 acme_token_resigned"
proof -
  have a: "Split CHR ''.'' acme_token =
     [''eyJhbGciOiJSUzI1NiJ9'',
      ''eyJpc3MiOiJodHRwczovL2hvc3QveC9yZWFsbXMvQUNNRSIsInN1YiI6InUtMTIzIiwiZXhwIjoyMDAwMDAwMDAwfQ'',
      ''c2ln'']"
    by (simp add: acme_token_def)
  have b: "Split CHR ''.'' acme_token_resigned =
     [''eyJhbGciOiJub25lIn0'',
      ''eyJpc3MiOiJodHRwczovL2hvc3QveC9yZWFsbXMvQUNNRSIsInN1YiI6InUtMTIzIiwiZXhwIjoyMDAwMDAwMDAwfQ'',
      '''']"
    by (simp add: acme_token_resigned_def)
  from same_middle_segment_same_results[OF a b, of sample_unmarshal_claims 1700000000000000000]
    a b DecodeJWT_acme_token
  show ?thesis by simp
qed

section \<open>Tenant id and expiry\<close>

lemma ExtractTenantID_claims:
  assumes "DecodeJWT unmarshal token = Inr claims"
  shows "ExtractTenantID unmarshal token =
           (if length (Split CHR ''/'' (Iss claims)) < 2 then Inl InvalidIssuerFormat
            else if last (Split CHR ''/'' (Iss claims)) = [] then Inl RealmNotExtracted
            else Inr (last (Split CHR ''/'' (Iss claims))))"
  using assms by (simp add: ExtractTenantID_def Let_def last_conv_nth Split_not_Nil)

lemma one_part_iff: "length (Split sep s) < 2 \<longleftrightarrow> sep \<notin> set s"
proof -
  have "count_list s sep = 0 \<longleftrightarrow> sep \<notin> set s"
    by (simp add: count_list_0_iff)
  then show ?thesis by (simp add: length_Split)
qed

text \<open>
  C5, as the code has it. For a token that decodes, \<open>ExtractTenantID\<close> looks at the issuer
  as a string and never at its host: with no slash in the issuer (an absent issuer is
  the empty string) it fails; with a slash at the end of a non-empty issuer it fails;
  otherwise it returns what follows the last slash.
\<close>

theorem ExtractTenantID_after_last_slash:
  assumes "DecodeJWT unmarshal token = Inr claims"
  shows "(CHR ''/'' \<notin> set (Iss claims)
            \<longrightarrow> ExtractTenantID unmarshal token = Inl InvalidIssuerFormat)
       \<and> (Iss claims \<noteq> [] \<and> last (Iss claims) = CHR ''/''
            \<longrightarrow> ExtractTenantID unmarshal token = Inl RealmNotExtracted)
       \<and> (\<forall>pre realm. Iss claims = pre @ ''/'' @ realm \<and> realm \<noteq> [] \<and> CHR ''/'' \<notin> set realm
            \<longrightarrow> ExtractTenantID unmarshal token = Inr realm)"
proof (intro conjI impI allI)
  assume "CHR ''/'' \<notin> set (Iss claims)"
  then show "ExtractTenantID unmarshal token = Inl InvalidIssuerFormat"
    by (simp add: ExtractTenantID_claims[OF assms] one_part_iff)
next
  assume a: "Iss claims \<noteq> [] \<and> last (Iss claims) = CHR ''/''"
  then have "CHR ''/'' \<in> set (Iss claims)"
    using last_in_set by metis
  moreover have "last (Split CHR ''/'' (Iss claims)) = []"
    using a by (simp add: last_Split_empty_iff)
  ultimately show "ExtractTenantID unmarshal token = Inl RealmNotExtracted"
    by (simp add: ExtractTenantID_claims[OF assms] one_part_iff)
next
  fix pre realm
  assume a: "Iss claims = pre @ ''/'' @ realm \<and> realm \<noteq> [] \<and> CHR ''/'' \<notin> set realm"
  then have "CHR ''/'' \<in> set (Iss claims)" by simp
  moreover have "last (Split CHR ''/'' (Iss claims)) = realm"
    using a by (simp add: last_Split)
  ultimately show "ExtractTenantID unmarshal token = Inr realm"
    using a by (simp add: ExtractTenantID_claims[OF assms] one_part_iff)
qed

theorem ExtractTenantID_after_last_slash_witness:
  "DecodeJWT sample_unmarshal_claims acme_token = Inr acme_claims
   \<and> Iss acme_claims = ''https://host/x/realms'' @ ''/'' @ ''ACME''
   \<and> ExtractTenantID sample_unmarshal_claims acme_token = Inr ''ACME''"
proof -
  have iss: "Iss acme_claims = ''https://host/x/realms'' @ ''/'' @ ''ACME''
      \<and> ''ACME'' \<noteq> [] \<and> CHR ''/'' \<notin> set ''ACME''"
    by (simp add: acme_claims_def no_claims_def)
  from ExtractTenantID_after_last_slash[OF DecodeJWT_acme_token] iss
  have "ExtractTenantID sample_unmarshal_claims acme_token = Inr ''ACME''" by blast
  with DecodeJWT_acme_token iss show ?thesis by simp
qed

text \<open>
  The claim as the specification states it fails on an issuer with no path after the
  host: the token's issuer is \<open>https://host\<close>, and \<open>ExtractTenantID\<close> returns \<open>host\<close>.
\<close>

theorem ExtractTenantID_issuer_without_path:
  "DecodeJWT sample_unmarshal_claims host_token = Inr host_claims
   \<and> Iss host_claims = ''https://host''
   \<and> ExtractTenantID sample_unmarshal_claims host_token = Inr ''host''"
  by (simp add: DecodeJWT_host_token ExtractTenantID_claims[OF DecodeJWT_host_token])
     (simp add: host_claims_def no_claims_def)

section \<open>Expiry\<close>

lemma signed_take_bit_63_wrap:
  fixes k :: int
  assumes "9223372036854775808 \<le> k" "k < 18446744073709551616"
  shows "signed_take_bit 63 k = k - 18446744073709551616"
proof -
  have shift: "k + 9223372036854775808 = k - 9223372036854775808 + 18446744073709551616"
    by arith
  have "(k + 9223372036854775808) mod 18446744073709551616
      = (k - 9223372036854775808 + 18446744073709551616) mod 18446744073709551616"
    by (subst shift) (rule refl)
  also have "\<dots> = (k - 9223372036854775808) mod 18446744073709551616"
    by (rule mod_add_self2)
  also have "\<dots> = k - 9223372036854775808"
    using assms by (intro mod_pos_pos_trivial) simp_all
  finally have "take_bit 64 (k + 9223372036854775808) = k - 9223372036854775808"
    by (simp add: take_bit_eq_mod)
  then show ?thesis
    by (simp add: signed_take_bit_eq_take_bit_shift)
qed

lemma sint_64_bounds:
  fixes sec :: "64 word"
  shows "- 9223372036854775808 \<le> sint sec" "sint sec < 9223372036854775808"
  using sint_ge[of sec] sint_lt[of sec] by simp_all

lemma sint_unixToInternal: "sint unixToInternal = 62135596800"
  by (simp add: unixToInternal_def)

text \<open>
  \<open>time.Unix\<close> gives the instant \<open>sec\<close> seconds after the epoch for every \<open>sec\<close> up to
  9223371974719179007; beyond it the seconds field wraps, and the instant lies 2^64
  seconds earlier.
\<close>

lemma Unix_in_range:
  assumes "sint sec \<le> 9223371974719179007"
  shows "Unix sec 0 = sint sec * 1000000000"
proof -
  have "sint (sec + unixToInternal) = signed_take_bit 63 (sint sec + 62135596800)"
    by (simp add: sint_word_add sint_unixToInternal)
  also have "\<dots> = sint sec + 62135596800"
    using assms sint_64_bounds(1)[of sec] by (intro signed_take_bit_int_eq_self) simp_all
  finally show ?thesis by (simp add: Unix_def)
qed

lemma Unix_wrapped:
  assumes "9223371974719179007 < sint sec"
  shows "Unix sec 0 = (sint sec - 18446744073709551616) * 1000000000"
proof -
  have "sint (sec + unixToInternal) = signed_take_bit 63 (sint sec + 62135596800)"
    by (simp add: sint_word_add sint_unixToInternal)
  also have "\<dots> = sint sec + 62135596800 - 18446744073709551616"
    using assms sint_64_bounds(2)[of sec] by (intro signed_take_bit_63_wrap) simp_all
  finally show ?thesis by (simp add: Unix_def)
qed

lemma IsTokenExpired_claims:
  assumes "DecodeJWT unmarshal token = Inr claims"
  shows "IsTokenExpired unmarshal now token = (Unix (Exp claims) 0 < now + 30 * 1000000000, None)"
  using assms by (simp add: IsTokenExpired_def Add_def After_def Second_def)

text \<open>
  C6, as the code has it. For a token that decodes, with an \<open>exp\<close> of at most
  9223371974719179007 seconds, \<open>IsTokenExpired\<close> is true exactly when the clock reading
  plus 30 seconds is after the instant \<open>exp\<close> seconds past the epoch (instants in
  nanoseconds). A larger \<open>exp\<close> does not fit the seconds field of Go's time and wraps
  around to a time long before the epoch: such a token is expired at every clock reading
  from the epoch on. For a token that does not decode the result is true, with the error.
\<close>

theorem IsTokenExpired_thirty_seconds:
  "(\<forall>claims. DecodeJWT unmarshal token = Inr claims
        \<and> sint (Exp claims) \<le> 9223371974719179007 \<longrightarrow>
      IsTokenExpired unmarshal now token
        = (sint (Exp claims) * 1000000000 < now + 30 * 1000000000, None))
   \<and> (\<forall>claims. DecodeJWT unmarshal token = Inr claims
        \<and> 9223371974719179007 < sint (Exp claims) \<and> 0 \<le> now \<longrightarrow>
      IsTokenExpired unmarshal now token = (True, None))
   \<and> (\<forall>err. DecodeJWT unmarshal token = Inl err \<longrightarrow>
      IsTokenExpired unmarshal now token = (True, Some err))"
proof (intro conjI allI impI)
  fix claims
  assume "DecodeJWT unmarshal token = Inr claims \<and> sint (Exp claims) \<le> 9223371974719179007"
  then show "IsTokenExpired unmarshal now token
      = (sint (Exp claims) * 1000000000 < now + 30 * 1000000000, None)"
    by (simp add: IsTokenExpired_claims Unix_in_range)
next
  fix claims
  assume a: "DecodeJWT unmarshal token = Inr claims
      \<and> 9223371974719179007 < sint (Exp claims) \<and> 0 \<le> now"
  have "sint (Exp claims) < 9223372036854775808"
    by (rule sint_64_bounds)
  then have "(sint (Exp claims) - 18446744073709551616) * 1000000000 < now + 30 * 1000000000"
    using a by simp
  with a show "IsTokenExpired unmarshal now token = (True, None)"
    by (simp add: IsTokenExpired_claims Unix_wrapped)
next
  fix err
  assume "DecodeJWT unmarshal token = Inl err"
  then show "IsTokenExpired unmarshal now token = (True, Some err)"
    by (simp add: IsTokenExpired_def)
qed

lemma sint_acme_exp: "sint (Exp acme_claims) = 2000000000"
  by (simp add: acme_claims_def no_claims_def)

lemma sint_far_exp: "sint (Exp far_claims) = 9223372036854775807"
  by (simp add: far_claims_def no_claims_def)

theorem IsTokenExpired_thirty_seconds_witness:
  "DecodeJWT sample_unmarshal_claims acme_token = Inr acme_claims
   \<and> sint (Exp acme_claims) = 2000000000
   \<and> IsTokenExpired sample_unmarshal_claims 1999999969000000000 acme_token = (False, None)
   \<and> IsTokenExpired sample_unmarshal_claims 1999999970000000000 acme_token = (False, None)
   \<and> IsTokenExpired sample_unmarshal_claims 1999999970000000001 acme_token = (True, None)
   \<and> IsTokenExpired sample_unmarshal_claims 2000000001000000000 acme_token = (True, None)
   \<and> DecodeJWT sample_unmarshal_claims far_token = Inr far_claims
   \<and> sint (Exp far_claims) = 9223372036854775807
   \<and> IsTokenExpired sample_unmarshal_claims 1700000000000000000 far_token = (True, None)
   \<and> DecodeJWT sample_unmarshal_claims ''abc'' = Inl InvalidTokenFormat
   \<and> IsTokenExpired sample_unmarshal_claims 1700000000000000000 ''abc''
       = (True, Some InvalidTokenFormat)"
proof -
  have bad: "DecodeJWT sample_unmarshal_claims ''abc'' = Inl InvalidTokenFormat"
    by (simp add: DecodeJWT_def)
  from IsTokenExpired_thirty_seconds[of sample_unmarshal_claims acme_token 1999999969000000000]
    IsTokenExpired_thirty_seconds[of sample_unmarshal_claims acme_token 1999999970000000000]
    IsTokenExpired_thirty_seconds[of sample_unmarshal_claims acme_token 1999999970000000001]
    IsTokenExpired_thirty_seconds[of sample_unmarshal_claims acme_token 2000000001000000000]
    IsTokenExpired_thirty_seconds[of sample_unmarshal_claims far_token 1700000000000000000]
    IsTokenExpired_thirty_seconds[of sample_unmarshal_claims "''abc''" 1700000000000000000]
    DecodeJWT_acme_token DecodeJWT_far_token bad sint_acme_exp sint_far_exp
  show ?thesis by simp
qed

text \<open>
  The claim as the specification states it fails on an \<open>exp\<close> beyond what Go's time can
  hold: the token's \<open>exp\<close> is 9223372036854775807, far more than 30 seconds after the
  clock reading 1700000000 seconds past the epoch, and \<open>IsTokenExpired\<close> is true.
\<close>

theorem IsTokenExpired_far_future_exp:
  "DecodeJWT sample_unmarshal_claims far_token = Inr far_claims
   \<and> sint (Exp far_claims) = 9223372036854775807
   \<and> (1700000000000000000::int) + 30 * 1000000000 < sint (Exp far_claims) * 1000000000
   \<and> IsTokenExpired sample_unmarshal_claims 1700000000000000000 far_token = (True, None)"
proof -
  have "Unix (Exp far_claims) 0 = (9223372036854775807 - 18446744073709551616) * 1000000000"
    using Unix_wrapped[of "Exp far_claims"] by (simp add: sint_far_exp)
  then have "IsTokenExpired sample_unmarshal_claims 1700000000000000000 far_token = (True, None)"
    by (simp add: IsTokenExpired_claims[OF DecodeJWT_far_token])
  then show ?thesis
    by (simp add: DecodeJWT_far_token sint_far_exp)
qed

section \<open>Refreshing the token\<close>


lemma digit_GetJWTToken_complete:
  assumes "complete ac"
  shows "digit_GetJWTToken net unmarshal before (ServerURL ac) (Realm ac) (ClientID ac)
           (ClientSecret ac) (Username ac) (Password ac) =
         (case net before (grant_request ac) of
            NotSent \<Rightarrow> (Inl TokenRequestFailed, [])
          | SendFailed \<Rightarrow> (Inl TokenRequestFailed, [grant_request ac])
          | ReadFailed \<Rightarrow> (Inl TokenRequestFailed, [grant_request ac])
          | Replied status resp \<Rightarrow>
              if status \<noteq> 200 then (Inl (GetTokenFailed resp), [grant_request ac])
              else (case unmarshal resp of
                      None \<Rightarrow> (Inl TokenResponseParseFailed, [grant_request ac])
                    | Some tokenResp \<Rightarrow> (Inr (AccessToken tokenResp), [grant_request ac])))"
  using assms
  by (simp add: digit_GetJWTToken_def complete_def grant_request_def Let_def
      split: outcome.splits option.splits)



lemma Load_after_store:
  "Load (st\<lparr>config_yaml := FileHolds c\<rparr>) = Inr c"
  by (simp add: Load_def)


lemma RefreshToken_no_credentials:
  assumes "Load (store w) = Inr c" "Auth c = None"
  shows "RefreshToken net unmarshal w = (Inl NoAuthConfig, w)"
  using assms by (simp add: RefreshToken_def config_GetAuthConfig_def)


lemma RefreshToken_complete:
  assumes "Load (store w) = Inr c" "Auth c = Some ac" "complete ac"
  shows "RefreshToken net unmarshal w =
         (case net (sent w) (grant_request ac) of
            NotSent \<Rightarrow> (Inl (KeycloakAuthFailed TokenRequestFailed), w)
          | SendFailed \<Rightarrow>
              (Inl (KeycloakAuthFailed TokenRequestFailed), w\<lparr>sent := sent w @ [grant_request ac]\<rparr>)
          | ReadFailed \<Rightarrow>
              (Inl (KeycloakAuthFailed TokenRequestFailed), w\<lparr>sent := sent w @ [grant_request ac]\<rparr>)
          | Replied status resp \<Rightarrow>
              if status \<noteq> 200
              then (Inl (KeycloakAuthFailed (GetTokenFailed resp)),
                    w\<lparr>sent := sent w @ [grant_request ac]\<rparr>)
              else (case unmarshal resp of
                      None \<Rightarrow> (Inl (KeycloakAuthFailed TokenResponseParseFailed),
                               w\<lparr>sent := sent w @ [grant_request ac]\<rparr>)
                    | Some tokenResp \<Rightarrow>
                        (case config_SetJWTToken (AccessToken tokenResp) (store w) of
                           Inl err \<Rightarrow> (Inl (StoreTokenFailed err),
                                       w\<lparr>sent := sent w @ [grant_request ac]\<rparr>)
                         | Inr st \<Rightarrow> (Inr (AccessToken tokenResp),
                                      \<lparr>store = st, sent = sent w @ [grant_request ac]\<rparr>))))"
  using assms(1,2)
  by (simp add: RefreshToken_def config_GetAuthConfig_def digit_GetJWTToken_complete[OF assms(3)]
      split: outcome.splits option.splits)

section \<open>A valid token\<close>

lemma GetValidJWTToken_no_token:
  assumes "Load (store w) = Inr c" "JWTToken c = []"
  shows "GetValidJWTToken net uc ut now w = (Inl NoJWTToken, w)"
  using assms by (simp add: GetValidJWTToken_def config_GetJWTToken_def)

lemma GetValidJWTToken_undecodable:
  assumes "Load (store w) = Inr c" "JWTToken c \<noteq> []" "DecodeJWT uc (JWTToken c) = Inl err"
  shows "GetValidJWTToken net uc ut now w = (Inl (ValidateTokenFailed err), w)"
  using assms by (simp add: GetValidJWTToken_def config_GetJWTToken_def IsTokenExpired_def)

lemma GetValidJWTToken_fresh:
  assumes "Load (store w) = Inr c" "JWTToken c \<noteq> []"
    and "IsTokenExpired uc now (JWTToken c) = (False, None)"
  shows "GetValidJWTToken net uc ut now w = (Inr (JWTToken c), w)"
  using assms by (simp add: GetValidJWTToken_def config_GetJWTToken_def)

lemma GetValidJWTToken_expired:
  assumes "Load (store w) = Inr c" "JWTToken c \<noteq> []"
    and "IsTokenExpired uc now (JWTToken c) = (True, None)"
  shows "GetValidJWTToken net uc ut now w =
           (case RefreshToken net ut w of
              (Inl err, w') \<Rightarrow> (Inl (RefreshFailed err), w')
            | (Inr newToken, w') \<Rightarrow> (Inr newToken, w'))"
  using assms by (simp add: GetValidJWTToken_def config_GetJWTToken_def)





lemma Load_sample_world: "Load (store (sample_world token auth)) = Inr (sample_config token auth)"
  by (simp add: sample_world_def Load_def)

lemma complete_sample_credentials: "complete sample_credentials"
  by (simp add: complete_def sample_credentials_def)

lemma grant_request_sample:
  "grant_request sample_credentials =
     \<lparr>verb = ''POST'',
      url = ''https://kc.example/keycloak/realms/ACME/protocol/openid-connect/token'',
      headers = [(''Content-Type'', ''application/x-www-form-urlencoded'')],
      payload = Form [(''grant_type'', ''password''), (''client_id'', ''cli''),
                      (''client_secret'', ''s3cret''), (''username'', ''alice''),
                      (''password'', ''pw'')]\<rparr>"
  by (simp add: grant_request_def token_request_def sample_credentials_def)

lemma sint_old_exp: "sint (Exp old_claims) = 1000"
  by (simp add: old_claims_def no_claims_def)

lemma IsTokenExpired_old_token:
  "IsTokenExpired sample_unmarshal_claims 1700000000000000000 old_token = (True, None)"
proof -
  have "Unix (Exp old_claims) 0 = 1000 * 1000000000"
    using Unix_in_range[of "Exp old_claims"] by (simp add: sint_old_exp)
  then show ?thesis
    by (simp add: IsTokenExpired_claims[OF DecodeJWT_old_token])
qed



text \<open>
  C2, as the code has it. The stored configuration loads as \<open>c\<close>. With no cached token
  \<open>GetValidJWTToken\<close> fails and leaves everything as it was: nothing is sent, and no
  refresh takes place. With a cached token that does not decode it fails in the same way.
  With a cached token that \<open>IsTokenExpired\<close> finds not expired it returns that token. With
  a cached token that \<open>IsTokenExpired\<close> finds expired it runs the refresh and returns what
  the refresh gives: the new token, or the refresh's failure.
\<close>

theorem GetValidJWTToken_cached_or_refreshed:
  assumes "Load (store w) = Inr c"
  shows "(JWTToken c = [] \<longrightarrow> GetValidJWTToken net uc ut now w = (Inl NoJWTToken, w))
   \<and> (\<forall>err. JWTToken c \<noteq> [] \<and> DecodeJWT uc (JWTToken c) = Inl err \<longrightarrow>
         GetValidJWTToken net uc ut now w = (Inl (ValidateTokenFailed err), w))
   \<and> (JWTToken c \<noteq> [] \<and> IsTokenExpired uc now (JWTToken c) = (False, None) \<longrightarrow>
         GetValidJWTToken net uc ut now w = (Inr (JWTToken c), w))
   \<and> (JWTToken c \<noteq> [] \<and> IsTokenExpired uc now (JWTToken c) = (True, None) \<longrightarrow>
         GetValidJWTToken net uc ut now w =
           (case RefreshToken net ut w of
              (Inl err, w') \<Rightarrow> (Inl (RefreshFailed err), w')
            | (Inr newToken, w') \<Rightarrow> (Inr newToken, w')))"
proof (intro conjI allI impI)
  assume "JWTToken c = []"
  then show "GetValidJWTToken net uc ut now w = (Inl NoJWTToken, w)"
    by (rule GetValidJWTToken_no_token[OF assms])
next
  fix err
  assume "JWTToken c \<noteq> [] \<and> DecodeJWT uc (JWTToken c) = Inl err"
  then show "GetValidJWTToken net uc ut now w = (Inl (ValidateTokenFailed err), w)"
    using GetValidJWTToken_undecodable[OF assms] by blast
next
  assume "JWTToken c \<noteq> [] \<and> IsTokenExpired uc now (JWTToken c) = (False, None)"
  then show "GetValidJWTToken net uc ut now w = (Inr (JWTToken c), w)"
    using GetValidJWTToken_fresh[OF assms] by blast
next
  assume "JWTToken c \<noteq> [] \<and> IsTokenExpired uc now (JWTToken c) = (True, None)"
  then show "GetValidJWTToken net uc ut now w =
           (case RefreshToken net ut w of
              (Inl err, w') \<Rightarrow> (Inl (RefreshFailed err), w')
            | (Inr newToken, w') \<Rightarrow> (Inr newToken, w'))"
    using GetValidJWTToken_expired[OF assms] by blast
qed

lemma RefreshToken_sample_T2:
  "RefreshToken token_endpoint_T2 sample_unmarshal_token (sample_world token (Some sample_credentials))
     = (Inr ''T2'',
        (sample_world ''T2'' (Some sample_credentials))\<lparr>sent := [grant_request sample_credentials]\<rparr>)"
proof -
  have "token_endpoint_T2 [] (grant_request sample_credentials)
      = Replied 200 ''{\"access_token\":\"T2\"}''"
    by (simp add: token_endpoint_T2_def grant_request_sample)
  then show ?thesis
    by (simp add: RefreshToken_complete[OF Load_sample_world _ complete_sample_credentials]
        sample_config_def)
       (simp add: sample_world_def sample_unmarshal_token_def config_SetJWTToken_def Load_def
        Save_def sample_config_def)
qed

lemma IsTokenExpired_acme_token:
  "IsTokenExpired sample_unmarshal_claims 1700000000000000000 acme_token = (False, None)"
  "IsTokenExpired sample_unmarshal_claims 1999999980000000000 acme_token = (True, None)"
proof -
  have "Unix (Exp acme_claims) 0 = 2000000000 * 1000000000"
    using Unix_in_range[of "Exp acme_claims"] by (simp add: sint_acme_exp)
  then show
    "IsTokenExpired sample_unmarshal_claims 1700000000000000000 acme_token = (False, None)"
    "IsTokenExpired sample_unmarshal_claims 1999999980000000000 acme_token = (True, None)"
    by (simp_all add: IsTokenExpired_claims[OF DecodeJWT_acme_token])
qed

theorem GetValidJWTToken_cached_or_refreshed_witness:
  "GetValidJWTToken token_endpoint_T2 sample_unmarshal_claims sample_unmarshal_token
       1700000000000000000 (sample_world acme_token (Some sample_credentials))
     = (Inr acme_token, sample_world acme_token (Some sample_credentials))
   \<and> GetValidJWTToken token_endpoint_T2 sample_unmarshal_claims sample_unmarshal_token
       1999999980000000000 (sample_world acme_token (Some sample_credentials))
     = (Inr ''T2'',
        (sample_world ''T2'' (Some sample_credentials))\<lparr>sent := [grant_request sample_credentials]\<rparr>)
   \<and> GetValidJWTToken token_endpoint_T2 sample_unmarshal_claims sample_unmarshal_token
       1700000000000000000 (sample_world old_token None)
     = (Inl (RefreshFailed NoAuthConfig), sample_world old_token None)"
proof -
  let ?c = "sample_config acme_token (Some sample_credentials)"
  have tok: "JWTToken ?c = acme_token" "JWTToken ?c \<noteq> []"
    by (simp_all add: sample_config_def acme_token_def)
  have early: "IsTokenExpired sample_unmarshal_claims 1700000000000000000 (JWTToken ?c)
      = (False, None)"
    and late: "IsTokenExpired sample_unmarshal_claims 1999999980000000000 (JWTToken ?c)
      = (True, None)"
    by (simp_all add: tok(1) IsTokenExpired_acme_token)
  from GetValidJWTToken_cached_or_refreshed[OF Load_sample_world,
      where net = token_endpoint_T2 and uc = sample_unmarshal_claims
        and ut = sample_unmarshal_token and now = 1700000000000000000
        and token1 = acme_token and auth1 = "Some sample_credentials"]
    tok early
  have 1: "GetValidJWTToken token_endpoint_T2 sample_unmarshal_claims sample_unmarshal_token
       1700000000000000000 (sample_world acme_token (Some sample_credentials))
     = (Inr acme_token, sample_world acme_token (Some sample_credentials))"
    by fastforce
  from GetValidJWTToken_cached_or_refreshed[OF Load_sample_world,
      where net = token_endpoint_T2 and uc = sample_unmarshal_claims
        and ut = sample_unmarshal_token and now = 1999999980000000000
        and token1 = acme_token and auth1 = "Some sample_credentials"]
    tok late
  have "GetValidJWTToken token_endpoint_T2 sample_unmarshal_claims sample_unmarshal_token
       1999999980000000000 (sample_world acme_token (Some sample_credentials))
     = (case RefreshToken token_endpoint_T2 sample_unmarshal_token
               (sample_world acme_token (Some sample_credentials)) of
          (Inl err, w') \<Rightarrow> (Inl (RefreshFailed err), w')
        | (Inr newToken, w') \<Rightarrow> (Inr newToken, w'))"
    by fastforce
  then have 2: "GetValidJWTToken token_endpoint_T2 sample_unmarshal_claims sample_unmarshal_token
       1999999980000000000 (sample_world acme_token (Some sample_credentials))
     = (Inr ''T2'',
        (sample_world ''T2'' (Some sample_credentials))\<lparr>sent := [grant_request sample_credentials]\<rparr>)"
    by (simp add: RefreshToken_sample_T2)
  let ?d = "sample_config old_token None"
  have otok: "JWTToken ?d = old_token" "JWTToken ?d \<noteq> []" and oauth: "Auth ?d = None"
    by (simp_all add: sample_config_def old_token_def)
  have olate: "IsTokenExpired sample_unmarshal_claims 1700000000000000000 (JWTToken ?d)
      = (True, None)"
    by (simp add: otok(1) IsTokenExpired_old_token)
  from GetValidJWTToken_cached_or_refreshed[OF Load_sample_world,
      where net = token_endpoint_T2 and uc = sample_unmarshal_claims
        and ut = sample_unmarshal_token and now = 1700000000000000000
        and token1 = old_token and auth1 = None]
    otok olate
  have "GetValidJWTToken token_endpoint_T2 sample_unmarshal_claims sample_unmarshal_token
       1700000000000000000 (sample_world old_token None)
     = (case RefreshToken token_endpoint_T2 sample_unmarshal_token (sample_world old_token None) of
          (Inl err, w') \<Rightarrow> (Inl (RefreshFailed err), w')
        | (Inr newToken, w') \<Rightarrow> (Inr newToken, w'))"
    by fastforce
  then have 3: "GetValidJWTToken token_endpoint_T2 sample_unmarshal_claims sample_unmarshal_token
       1700000000000000000 (sample_world old_token None)
     = (Inl (RefreshFailed NoAuthConfig), sample_world old_token None)"
    by (simp add: RefreshToken_no_credentials[OF Load_sample_world oauth])
  from 1 2 3 show ?thesis by blast
qed

text \<open>
  The claim as the specification states it fails when no token is cached and when the
  cached token does not decode: a complete Credential Set is stored and a refresh would
  give \<open>T2\<close>, yet \<open>GetValidJWTToken\<close> fails and sends nothing.
\<close>

theorem GetValidJWTToken_does_not_refresh:
  "RefreshToken token_endpoint_T2 sample_unmarshal_token (sample_world [] (Some sample_credentials))
     = (Inr ''T2'',
        (sample_world ''T2'' (Some sample_credentials))\<lparr>sent := [grant_request sample_credentials]\<rparr>)
   \<and> GetValidJWTToken token_endpoint_T2 sample_unmarshal_claims sample_unmarshal_token
       1700000000000000000 (sample_world [] (Some sample_credentials))
     = (Inl NoJWTToken, sample_world [] (Some sample_credentials))
   \<and> RefreshToken token_endpoint_T2 sample_unmarshal_token (sample_world ''abc'' (Some sample_credentials))
     = (Inr ''T2'',
        (sample_world ''T2'' (Some sample_credentials))\<lparr>sent := [grant_request sample_credentials]\<rparr>)
   \<and> GetValidJWTToken token_endpoint_T2 sample_unmarshal_claims sample_unmarshal_token
       1700000000000000000 (sample_world ''abc'' (Some sample_credentials))
     = (Inl (ValidateTokenFailed InvalidTokenFormat), sample_world ''abc'' (Some sample_credentials))
   \<and> sent (sample_world [] (Some sample_credentials)) = []
   \<and> sent (sample_world ''abc'' (Some sample_credentials)) = []"
proof -
  have 1: "GetValidJWTToken token_endpoint_T2 sample_unmarshal_claims sample_unmarshal_token
       1700000000000000000 (sample_world [] (Some sample_credentials))
     = (Inl NoJWTToken, sample_world [] (Some sample_credentials))"
    by (rule GetValidJWTToken_no_token[OF Load_sample_world]) (simp add: sample_config_def)
  have "DecodeJWT sample_unmarshal_claims ''abc'' = Inl InvalidTokenFormat"
    by (simp add: DecodeJWT_def)
  then have 2: "GetValidJWTToken token_endpoint_T2 sample_unmarshal_claims sample_unmarshal_token
       1700000000000000000 (sample_world ''abc'' (Some sample_credentials))
     = (Inl (ValidateTokenFailed InvalidTokenFormat), sample_world ''abc'' (Some sample_credentials))"
    by (intro GetValidJWTToken_undecodable[OF Load_sample_world]) (simp_all add: sample_config_def)
  show ?thesis
    using 1 2 by (simp add: RefreshToken_sample_T2) (simp add: sample_world_def)
qed

section \<open>The workflow calls\<close>

lemma post_json_cases:
  obtains (unsent) err where "post_json net before req = (Inl err, [])"
  | (failed) err where "post_json net before req = (Inl err, [req])"
      "\<not> reply_ok unmarshal st (net before req)"
  | (replied) status resp where "post_json net before req = (Inr resp, [req])"
      "net before req = Replied status resp" "200 \<le> status" "status < 300"
proof (cases "net before req")
  case NotSent
  then have "post_json net before req = (Inl CreateRequestFailed, [])"
    by (simp add: post_json_def)
  then show ?thesis by (rule unsent)
next
  case SendFailed
  then have "post_json net before req = (Inl SendRequestFailed, [req])"
    "\<not> reply_ok unmarshal st (net before req)"
    by (simp_all add: post_json_def reply_ok_def)
  then show ?thesis by (rule failed)
next
  case ReadFailed
  then have "post_json net before req = (Inl ReadResponseFailed, [req])"
    "\<not> reply_ok unmarshal st (net before req)"
    by (simp_all add: post_json_def reply_ok_def)
  then show ?thesis by (rule failed)
next
  case (Replied status resp)
  show ?thesis
  proof (cases "status < 200 \<or> status \<ge> 300")
    case True
    with Replied have "post_json net before req = (Inl (APIRequestFailed status resp), [req])"
      "\<not> reply_ok unmarshal st (net before req)"
      by (auto simp: post_json_def reply_ok_def)
    then show ?thesis by (rule failed)
  next
    case False
    with Replied have "post_json net before req = (Inr resp, [req])"
      "net before req = Replied status resp" "200 \<le> status" "status < 300"
      by (auto simp: post_json_def)
    then show ?thesis by (rule replied)
  qed
qed

lemma CreateProcess_cases:
  obtains (unsent) err where
      "CreateProcess net before serverURL jwtToken tenantID name code description version sla
         = (Inl err, [])"
  | (failed) err req where
      "CreateProcess net before serverURL jwtToken tenantID name code description version sla
         = (Inl err, [req])"
      "\<not> reply_ok unmarshal st (net before req)"
  | (replied) status resp req where
      "CreateProcess net before serverURL jwtToken tenantID name code description version sla
         = (Inr resp, [req])"
      "net before req = Replied status resp" "200 \<le> status" "status < 300"
proof (cases "serverURL = [] \<or> tenantID = []")
  case True
  then have "\<exists>err. CreateProcess net before serverURL jwtToken tenantID name code description
      version sla = (Inl err, [])"
    by (auto simp: CreateProcess_def)
  then show ?thesis using unsent by blast
next
  case False
  then have eq: "CreateProcess net before serverURL jwtToken tenantID name code description
      version sla = post_json net before
        (process_request serverURL jwtToken tenantID name code description version sla)"
    by (simp add: CreateProcess_def)
  show ?thesis
    by (rule post_json_cases[where net = net and before = before and unmarshal = unmarshal
          and st = st and req =
            "process_request serverURL jwtToken tenantID name code description version sla"])
       (simp_all add: eq[symmetric] unsent failed replied)
qed

lemma CreateState_cases:
  obtains (unsent) err where
      "CreateState net before serverURL jwtToken tenantID processID code name isInitial
         isParallel isJoin sla = (Inl err, [])"
  | (failed) err req where
      "CreateState net before serverURL jwtToken tenantID processID code name isInitial
         isParallel isJoin sla = (Inl err, [req])"
      "\<not> reply_ok unmarshal st (net before req)"
  | (replied) status resp req where
      "CreateState net before serverURL jwtToken tenantID processID code name isInitial
         isParallel isJoin sla = (Inr resp, [req])"
      "net before req = Replied status resp" "200 \<le> status" "status < 300"
proof (cases "serverURL = [] \<or> tenantID = [] \<or> processID = []")
  case True
  then have "\<exists>err. CreateState net before serverURL jwtToken tenantID processID code name
      isInitial isParallel isJoin sla = (Inl err, [])"
    by (auto simp: CreateState_def)
  then show ?thesis using unsent by blast
next
  case False
  then have eq: "CreateState net before serverURL jwtToken tenantID processID code name
      isInitial isParallel isJoin sla = post_json net before
        (state_request serverURL jwtToken tenantID processID code name isInitial isParallel
          isJoin sla)"
    by (simp add: CreateState_def)
  show ?thesis
    by (rule post_json_cases[where net = net and before = before and unmarshal = unmarshal
          and st = st and req =
            "state_request serverURL jwtToken tenantID processID code name isInitial isParallel
               isJoin sla"])
       (simp_all add: eq[symmetric] unsent failed replied)
qed

lemma CreateAction_cases:
  obtains (unsent) err where
      "CreateAction net before serverURL jwtToken tenantID stateID name nextState roles
         assigneeCheck = (Inl err, [])"
  | (failed) err req where
      "CreateAction net before serverURL jwtToken tenantID stateID name nextState roles
         assigneeCheck = (Inl err, [req])"
      "\<not> reply_ok unmarshal st (net before req)"
  | (replied) status resp req where
      "CreateAction net before serverURL jwtToken tenantID stateID name nextState roles
         assigneeCheck = (Inr resp, [req])"
      "net before req = Replied status resp" "200 \<le> status" "status < 300"
proof (cases "serverURL = [] \<or> tenantID = [] \<or> stateID = []")
  case True
  then have "\<exists>err. CreateAction net before serverURL jwtToken tenantID stateID name
      nextState roles assigneeCheck = (Inl err, [])"
    by (auto simp: CreateAction_def)
  then show ?thesis using unsent by blast
next
  case False
  then have eq: "CreateAction net before serverURL jwtToken tenantID stateID name nextState
      roles assigneeCheck = post_json net before
        (action_request serverURL jwtToken tenantID stateID name nextState roles assigneeCheck)"
    by (simp add: CreateAction_def)
  show ?thesis
    by (rule post_json_cases[where net = net and before = before and unmarshal = unmarshal
          and st = st and req =
            "action_request serverURL jwtToken tenantID stateID name nextState roles
               assigneeCheck"])
       (simp_all add: eq[symmetric] unsent failed replied)
qed

section \<open>Traces\<close>

lemma answered_ok_append:
  "i < length tr \<Longrightarrow> answered_ok net unmarshal (tr @ ext) i = answered_ok net unmarshal tr i"
  by (simp add: answered_ok_def nth_append)

lemma answered_ok_last:
  "answered_ok net unmarshal (tr @ [(st, req)]) (length tr)
     = reply_ok unmarshal st (net (map snd tr) req)"
  by (simp add: answered_ok_def)

lemma all_ok_imp_all_but_last: "all_ok net unmarshal tr \<Longrightarrow> all_but_last_ok net unmarshal tr"
  by (simp add: all_ok_def all_but_last_ok_def)

lemma all_but_last_ok_snoc:
  "all_ok net unmarshal tr \<Longrightarrow> all_but_last_ok net unmarshal (tr @ [x])"
  by (simp add: all_ok_def all_but_last_ok_def answered_ok_append)

lemma all_ok_snoc:
  "all_ok net unmarshal tr \<Longrightarrow> reply_ok unmarshal st (net (map snd tr) req)
     \<Longrightarrow> all_ok net unmarshal (tr @ [(st, req)])"
  unfolding all_ok_def
proof (intro allI impI)
  fix i
  assume ok: "\<forall>i<length tr. answered_ok net unmarshal tr i"
    and last: "reply_ok unmarshal st (net (map snd tr) req)"
    and i: "i < length (tr @ [(st, req)])"
  show "answered_ok net unmarshal (tr @ [(st, req)]) i"
  proof (cases "i < length tr")
    case True
    with ok show ?thesis by (simp add: answered_ok_append)
  next
    case False
    with i have "i = length tr" by simp
    with last show ?thesis by (simp add: answered_ok_last)
  qed
qed

lemma all_ok_Nil: "all_ok net unmarshal []"
  by (simp add: all_ok_def)

lemma all_ok_snocD:
  "all_ok net unmarshal (tr @ [(st, req)]) \<Longrightarrow> reply_ok unmarshal st (net (map snd tr) req)"
  unfolding all_ok_def using answered_ok_last[of net unmarshal tr st req]
  by (metis length_append_singleton lessI)

section \<open>The two loops\<close>

lemma create_states_run:
  assumes "create_states net un srv jwt ten pid states m tr = (res, tr')"
    and "all_ok net un tr"
  shows "\<exists>k\<le>length states.
           map fst tr' = map fst tr @ map StateStep (take k states)
         \<and> all_but_last_ok net un tr'
         \<and> (\<forall>m'. res = Inr m' \<longrightarrow> k = length states \<and> all_ok net un tr')
         \<and> (\<forall>err. res = Inl err \<longrightarrow> creation_failure err)"
  using assms
proof (induction states arbitrary: m tr)
  case Nil
  then show ?case by (auto simp: all_ok_imp_all_but_last)
next
  case (Cons s ss)
  let ?call = "CreateState net (map snd tr) srv jwt ten pid (State.Code s) (State.Name s)
      (IsInitial s) (IsParallel s) (IsJoin s) (State.SLA s)"
  show ?case
  proof (cases rule: CreateState_cases[where net = net and before = "map snd tr"
        and serverURL = srv and jwtToken = jwt and tenantID = ten and processID = pid
        and code = "State.Code s" and name = "State.Name s" and isInitial = "IsInitial s"
        and isParallel = "IsParallel s" and isJoin = "IsJoin s" and sla = "State.SLA s"
        and unmarshal = un and st = "StateStep s"])
    case (unsent err)
    with Cons.prems have "res = Inl (CreateStateFailed (State.Code s) err)" "tr' = tr"
      by simp_all
    with Cons.prems(2) show ?thesis
      by (intro exI[of _ 0]) (simp add: all_ok_imp_all_but_last)
  next
    case (failed err req)
    with Cons.prems have r: "res = Inl (CreateStateFailed (State.Code s) err)"
      "tr' = tr @ [(StateStep s, req)]"
      by simp_all
    with Cons.prems(2) show ?thesis
      by (intro exI[of _ 1]) (simp add: all_but_last_ok_snoc take_Suc_Cons)
  next
    case (replied status resp req)
    show ?thesis
    proof (cases "un resp")
      case None
      with replied Cons.prems have "res = Inl (ParseStateResponseFailed (State.Code s))"
        "tr' = tr @ [(StateStep s, req)]"
        by simp_all
      with Cons.prems(2) show ?thesis
        by (intro exI[of _ 1]) (simp add: all_but_last_ok_snoc take_Suc_Cons)
    next
      case (Some result)
      show ?thesis
      proof (cases "id_string result")
        case None
        with Some replied Cons.prems have "res = Inl (ExtractStateIDFailed (State.Code s))"
          "tr' = tr @ [(StateStep s, req)]"
          by simp_all
        with Cons.prems(2) show ?thesis
          by (intro exI[of _ 1]) (simp add: all_but_last_ok_snoc take_Suc_Cons)
      next
        case (Some stateID)
        with \<open>un resp = Some result\<close> replied Cons.prems(1)
        have rec: "create_states net un srv jwt ten pid ss (m(State.Code s \<mapsto> stateID))
            (tr @ [(StateStep s, req)]) = (res, tr')"
          by simp
        have "reply_ok un (StateStep s) (net (map snd tr) req)"
          using replied Some \<open>un resp = Some result\<close> by (simp add: reply_ok_def)
        then have ok: "all_ok net un (tr @ [(StateStep s, req)])"
          using Cons.prems(2) by (rule all_ok_snoc[rotated])
        from Cons.IH[OF rec ok] obtain k where k: "k \<le> length ss"
          "map fst tr' = map fst (tr @ [(StateStep s, req)]) @ map StateStep (take k ss)"
          "all_but_last_ok net un tr'"
          "\<forall>m'. res = Inr m' \<longrightarrow> k = length ss \<and> all_ok net un tr'"
          "\<forall>err. res = Inl err \<longrightarrow> creation_failure err"
          by blast
        show ?thesis
          using k by (intro exI[of _ "Suc k"]) auto
      qed
    qed
  qed
qed

lemma create_states_dom:
  assumes "create_states net un srv jwt ten pid states m tr = (Inr m', tr')"
  shows "dom m' = dom m \<union> set (map State.Code states)"
  using assms
proof (induction states arbitrary: m tr)
  case Nil
  then show ?case by simp
next
  case (Cons s ss)
  from Cons.prems obtain new stateID where
    rec: "create_states net un srv jwt ten pid ss (m(State.Code s \<mapsto> stateID))
        (tr @ map (Pair (StateStep s)) new) = (Inr m', tr')"
    by (auto split: prod.splits sum.splits option.splits)
  have "dom m' = dom (m(State.Code s \<mapsto> stateID)) \<union> set (map State.Code ss)"
    by (rule Cons.IH[OF rec])
  then show ?case by simp
qed

lemma create_actions_run:
  assumes "create_actions net srv jwt ten m actions tr = (res, tr')"
    and "all_ok net un tr"
  shows "\<exists>k\<le>length actions.
           map fst tr' = map fst tr @ map ActionStep (take k actions)
         \<and> all_but_last_ok net un tr'
         \<and> (\<forall>a\<in>set (take k actions). CurrentState a \<in> dom m \<and> NextState a \<in> dom m)
         \<and> (\<forall>u. res = Inr u \<longrightarrow> k = length actions \<and> all_ok net un tr')"
  using assms
proof (induction actions arbitrary: tr)
  case Nil
  then show ?case by (auto simp: all_ok_imp_all_but_last)
next
  case (Cons a as)
  show ?case
  proof (cases "m (CurrentState a)")
    case None
    with Cons.prems have "res = Inl (CurrentStateIDNotFound (CurrentState a))" "tr' = tr"
      by simp_all
    with Cons.prems(2) show ?thesis
      by (intro exI[of _ 0]) (simp add: all_ok_imp_all_but_last)
  next
    case (Some currentStateID)
    note cur = Some
    show ?thesis
    proof (cases "m (NextState a)")
      case None
      with cur Cons.prems have "res = Inl (NextStateIDNotFound (NextState a))" "tr' = tr"
        by simp_all
      with Cons.prems(2) show ?thesis
        by (intro exI[of _ 0]) (simp add: all_ok_imp_all_but_last)
    next
      case (Some nextStateID)
      note nxt = Some
      let ?call = "CreateAction net (map snd tr) srv jwt ten currentStateID (Action.Name a)
          nextStateID (Attributes.Roles (Attributes (AttributeValidation a)))
          (AssigneeCheck (AttributeValidation a))"
      have resolved: "CurrentState a \<in> dom m \<and> NextState a \<in> dom m"
        using cur nxt by auto
      show ?thesis
      proof (cases rule: CreateAction_cases[where net = net and before = "map snd tr"
            and serverURL = srv and jwtToken = jwt and tenantID = ten
            and stateID = currentStateID and name = "Action.Name a"
            and nextState = nextStateID
            and roles = "Attributes.Roles (Attributes (AttributeValidation a))"
            and assigneeCheck = "AssigneeCheck (AttributeValidation a)"
            and unmarshal = un and st = "ActionStep a"])
        case (unsent err)
        with cur nxt Cons.prems have "res = Inl (CreateActionFailed (Action.Name a) err)" "tr' = tr"
          by simp_all
        with Cons.prems(2) show ?thesis
          by (intro exI[of _ 0]) (simp add: all_ok_imp_all_but_last)
      next
        case (failed err req)
        with cur nxt Cons.prems have "res = Inl (CreateActionFailed (Action.Name a) err)"
          "tr' = tr @ [(ActionStep a, req)]"
          by simp_all
        with Cons.prems(2) resolved show ?thesis
          by (intro exI[of _ 1]) (simp add: all_but_last_ok_snoc take_Suc_Cons)
      next
        case (replied status resp req)
        with cur nxt Cons.prems(1)
        have rec: "create_actions net srv jwt ten m as (tr @ [(ActionStep a, req)]) = (res, tr')"
          by simp
        have "reply_ok un (ActionStep a) (net (map snd tr) req)"
          using replied by (simp add: reply_ok_def)
        then have ok: "all_ok net un (tr @ [(ActionStep a, req)])"
          using Cons.prems(2) by (rule all_ok_snoc[rotated])
        from Cons.IH[OF rec ok] obtain k where k: "k \<le> length as"
          "map fst tr' = map fst (tr @ [(ActionStep a, req)]) @ map ActionStep (take k as)"
          "all_but_last_ok net un tr'"
          "\<forall>a\<in>set (take k as). CurrentState a \<in> dom m \<and> NextState a \<in> dom m"
          "\<forall>u. res = Inr u \<longrightarrow> k = length as \<and> all_ok net un tr'"
          by blast
        show ?thesis
          using k resolved by (intro exI[of _ "Suc k"]) auto
      qed
    qed
  qed
qed

lemma missing_reference_map:
  assumes "dom m = set (map State.Code states)"
  shows "missing_reference states a =
           (case m (CurrentState a) of
              None \<Rightarrow> Some (CurrentStateIDNotFound (CurrentState a))
            | Some c \<Rightarrow>
                (case m (NextState a) of
                   None \<Rightarrow> Some (NextStateIDNotFound (NextState a))
                 | Some n \<Rightarrow> None))"
proof -
  have D: "\<And>code. m code = None \<longleftrightarrow> code \<notin> set (map State.Code states)"
    using assms by (metis domIff)
  show ?thesis
  proof (cases "m (CurrentState a)")
    case None
    then have "CurrentState a \<notin> set (map State.Code states)"
      using D by blast
    with None show ?thesis
      unfolding missing_reference_def by simp
  next
    case (Some c)
    then have cur: "CurrentState a \<in> set (map State.Code states)"
      using D by (metis option.distinct(1))
    show ?thesis
    proof (cases "m (NextState a)")
      case None
      then have "NextState a \<notin> set (map State.Code states)"
        using D by blast
      with cur Some None show ?thesis
        unfolding missing_reference_def by simp
    next
      case (Some n)
      then have "NextState a \<in> set (map State.Code states)"
        using D by (metis option.distinct(1))
      with cur \<open>m (CurrentState a) = Some c\<close> Some show ?thesis
        unfolding missing_reference_def by simp
    qed
  qed
qed

lemma create_actions_result:
  assumes "dom m = set (map State.Code states)"
  shows "(\<forall>u. fst (create_actions net srv jwt ten m actions tr) = Inr u \<longrightarrow>
            first_missing_reference states actions = None)
       \<and> (\<forall>err. fst (create_actions net srv jwt ten m actions tr) = Inl err \<longrightarrow>
            creation_failure err \<or> first_missing_reference states actions = Some err)"
proof (induction actions arbitrary: tr)
  case Nil
  show ?case by simp
next
  case (Cons a as)
  show ?case
  proof (cases "m (CurrentState a)")
    case None
    then show ?thesis
      by (simp add: missing_reference_map[OF assms])
  next
    case (Some currentStateID)
    note cur = Some
    show ?thesis
    proof (cases "m (NextState a)")
      case None
      with cur show ?thesis
        by (simp add: missing_reference_map[OF assms])
    next
      case (Some nextStateID)
      obtain r new where call: "CreateAction net (map snd tr) srv jwt ten currentStateID
          (Action.Name a) nextStateID (Attributes.Roles (Attributes (AttributeValidation a)))
          (AssigneeCheck (AttributeValidation a)) = (r, new)"
        by (rule prod.exhaust)
      have none: "missing_reference states a = None"
        using cur Some by (simp add: missing_reference_map[OF assms])
      show ?thesis
      proof (cases r)
        case (Inl err)
        with cur Some call none show ?thesis by simp
      next
        case (Inr resp)
        with cur Some call none Cons.IH[of "tr @ map (Pair (ActionStep a)) new"]
        show ?thesis by simp
      qed
    qed
  qed
qed

section \<open>The run of create-workflow, step by step\<close>

lemma createWorkflow_cases:
  obtains
    (process_failed) err tr where
      "createWorkflow net un srv jwt ten workflowDef = (Inl err, tr)"
      "creation_failure err" "length tr \<le> 1" "map fst tr = take (length tr) [ProcessStep]"
      "all_but_last_ok net un tr" "tr = [] \<or> \<not> all_ok net un tr"
  | (states_failed) pid tr0 err tr1 where
      "all_ok net un tr0" "map fst tr0 = [ProcessStep]"
      "create_states net un srv jwt ten pid (States (Workflow workflowDef)) Map.empty tr0
         = (Inl err, tr1)"
      "createWorkflow net un srv jwt ten workflowDef = (Inl err, tr1)"
  | (states_done) pid tr0 m tr1 r tr2 where
      "all_ok net un tr0" "map fst tr0 = [ProcessStep]"
      "create_states net un srv jwt ten pid (States (Workflow workflowDef)) Map.empty tr0
         = (Inr m, tr1)"
      "create_actions net srv jwt ten m (Actions (Workflow workflowDef)) tr1 = (r, tr2)"
      "createWorkflow net un srv jwt ten workflowDef =
         (case r of
            Inl err \<Rightarrow> Inl err
          | Inr u \<Rightarrow> Inr \<lparr>ProcessID = pid,
                           StatesCount = length (States (Workflow workflowDef)),
                           ActionsCount = length (Actions (Workflow workflowDef))\<rparr>,
          tr2)"
proof -
  let ?wf = "Workflow workflowDef"
  show ?thesis
  proof (cases rule: CreateProcess_cases[where net = net and before = "[]"
        and serverURL = srv and jwtToken = jwt and tenantID = ten
        and name = "Process.Name (Process ?wf)" and code = "Process.Code (Process ?wf)"
        and description = "Description (Process ?wf)" and version = "Version (Process ?wf)"
        and sla = "Process.SLA (Process ?wf)" and unmarshal = un and st = ProcessStep])
    case (unsent err)
    then have "createWorkflow net un srv jwt ten workflowDef = (Inl (CreateProcessFailed err), [])"
      by (simp add: createWorkflow_def)
    then show ?thesis
      by (rule process_failed) (simp_all add: all_but_last_ok_def)
  next
    case (failed err req)
    then have cw: "createWorkflow net un srv jwt ten workflowDef
        = (Inl (CreateProcessFailed err), [(ProcessStep, req)])"
      by (simp add: createWorkflow_def)
    have bad: "\<not> all_ok net un [(ProcessStep, req)]"
      using all_ok_snocD[of net un "[]" ProcessStep req] failed(2) by auto
    show ?thesis
      by (rule process_failed[OF cw]) (simp_all add: all_but_last_ok_def bad)
  next
    case (replied status resp req)
    show ?thesis
    proof (cases "un resp")
      case None
      with replied have cw: "createWorkflow net un srv jwt ten workflowDef
          = (Inl ParseProcessResponseFailed, [(ProcessStep, req)])"
        by (simp add: createWorkflow_def)
      have "\<not> reply_ok un ProcessStep (net [] req)"
        using replied None by (simp add: reply_ok_def)
      then have bad: "\<not> all_ok net un [(ProcessStep, req)]"
        using all_ok_snocD[of net un "[]" ProcessStep req] by auto
      show ?thesis
        by (rule process_failed[OF cw]) (simp_all add: all_but_last_ok_def bad)
    next
      case (Some result)
      show ?thesis
      proof (cases "id_string result")
        case None
        with Some replied have cw: "createWorkflow net un srv jwt ten workflowDef
            = (Inl ExtractProcessIDFailed, [(ProcessStep, req)])"
          by (simp add: createWorkflow_def)
        have "\<not> reply_ok un ProcessStep (net [] req)"
          using replied Some None by (simp add: reply_ok_def)
        then have bad: "\<not> all_ok net un [(ProcessStep, req)]"
          using all_ok_snocD[of net un "[]" ProcessStep req] by auto
        show ?thesis
          by (rule process_failed[OF cw]) (simp_all add: all_but_last_ok_def bad)
      next
        case (Some pid)
        have "reply_ok un ProcessStep (net (map snd []) req)"
          using replied \<open>un resp = Some result\<close> Some by (simp add: reply_ok_def)
        then have ok: "all_ok net un [(ProcessStep, req)]"
          using all_ok_snoc[OF all_ok_Nil, of un ProcessStep net req] by simp
        have tags: "map fst [(ProcessStep, req)] = [ProcessStep]"
          by simp
        obtain r1 tr1 where r1: "create_states net un srv jwt ten pid (States ?wf) Map.empty
            [(ProcessStep, req)] = (r1, tr1)"
          by (rule prod.exhaust)
        show ?thesis
        proof (cases r1)
          case (Inl err)
          with r1 replied \<open>un resp = Some result\<close> Some
          have cw: "createWorkflow net un srv jwt ten workflowDef = (Inl err, tr1)"
            by (simp add: createWorkflow_def)
          from r1 Inl have r1': "create_states net un srv jwt ten pid (States ?wf) Map.empty
              [(ProcessStep, req)] = (Inl err, tr1)"
            by simp
          show ?thesis
            by (rule states_failed[OF ok tags r1' cw])
        next
          case (Inr m)
          obtain r tr2 where r: "create_actions net srv jwt ten m (Actions ?wf) tr1 = (r, tr2)"
            by (rule prod.exhaust)
          from r1 Inr have r1': "create_states net un srv jwt ten pid (States ?wf) Map.empty
              [(ProcessStep, req)] = (Inr m, tr1)"
            by simp
          from r r1 Inr replied \<open>un resp = Some result\<close> Some
          have cw: "createWorkflow net un srv jwt ten workflowDef =
             (case r of
                Inl err \<Rightarrow> Inl err
              | Inr u \<Rightarrow> Inr \<lparr>ProcessID = pid, StatesCount = length (States ?wf),
                               ActionsCount = length (Actions ?wf)\<rparr>,
              tr2)"
            by (cases r) (simp_all add: createWorkflow_def Let_def)
          show ?thesis
            by (rule states_done[OF ok tags r1' r cw])
        qed
      qed
    qed
  qed
qed

section \<open>A run that fails has not made every planned call with success\<close>

lemma create_states_failed:
  assumes "create_states net un srv jwt ten pid states m tr = (Inl err, tr')"
  shows "\<not> (length tr' = length tr + length states \<and> all_ok net un tr')"
  using assms
proof (induction states arbitrary: m tr)
  case Nil
  then show ?case by simp
next
  case (Cons s ss)
  show ?case
  proof (cases rule: CreateState_cases[where net = net and before = "map snd tr"
        and serverURL = srv and jwtToken = jwt and tenantID = ten and processID = pid
        and code = "State.Code s" and name = "State.Name s" and isInitial = "IsInitial s"
        and isParallel = "IsParallel s" and isJoin = "IsJoin s" and sla = "State.SLA s"
        and unmarshal = un and st = "StateStep s"])
    case (unsent err')
    with Cons.prems have "tr' = tr" by simp
    then show ?thesis by simp
  next
    case (failed err' req)
    with Cons.prems have "tr' = tr @ [(StateStep s, req)]" by simp
    with failed(2) show ?thesis
      using all_ok_snocD[of net un tr "StateStep s" req] by blast
  next
    case (replied status resp req)
    show ?thesis
    proof (cases "un resp")
      case None
      with replied Cons.prems have "tr' = tr @ [(StateStep s, req)]" by simp
      moreover have "\<not> reply_ok un (StateStep s) (net (map snd tr) req)"
        using replied None by (simp add: reply_ok_def)
      ultimately show ?thesis
        using all_ok_snocD[of net un tr "StateStep s" req] by blast
    next
      case (Some result)
      show ?thesis
      proof (cases "id_string result")
        case None
        with Some replied Cons.prems have "tr' = tr @ [(StateStep s, req)]" by simp
        moreover have "\<not> reply_ok un (StateStep s) (net (map snd tr) req)"
          using replied Some None by (simp add: reply_ok_def)
        ultimately show ?thesis
          using all_ok_snocD[of net un tr "StateStep s" req] by blast
      next
        case (Some stateID)
        with \<open>un resp = Some result\<close> replied Cons.prems
        have rec: "create_states net un srv jwt ten pid ss (m(State.Code s \<mapsto> stateID))
            (tr @ [(StateStep s, req)]) = (Inl err, tr')"
          by simp
        from Cons.IH[OF rec] show ?thesis by simp
      qed
    qed
  qed
qed

lemma create_actions_failed:
  assumes "create_actions net srv jwt ten m actions tr = (Inl err, tr')"
  shows "\<not> (length tr' = length tr + length actions \<and> all_ok net un tr')"
  using assms
proof (induction actions arbitrary: tr)
  case Nil
  then show ?case by simp
next
  case (Cons a as)
  show ?case
  proof (cases "m (CurrentState a)")
    case None
    with Cons.prems have "tr' = tr" by simp
    then show ?thesis by simp
  next
    case (Some currentStateID)
    note cur = Some
    show ?thesis
    proof (cases "m (NextState a)")
      case None
      with cur Cons.prems have "tr' = tr" by simp
      then show ?thesis by simp
    next
      case (Some nextStateID)
      note nxt = Some
      show ?thesis
      proof (cases rule: CreateAction_cases[where net = net and before = "map snd tr"
            and serverURL = srv and jwtToken = jwt and tenantID = ten
            and stateID = currentStateID and name = "Action.Name a"
            and nextState = nextStateID
            and roles = "Attributes.Roles (Attributes (AttributeValidation a))"
            and assigneeCheck = "AssigneeCheck (AttributeValidation a)"
            and unmarshal = un and st = "ActionStep a"])
        case (unsent err')
        with cur nxt Cons.prems have "tr' = tr" by simp
        then show ?thesis by simp
      next
        case (failed err' req)
        with cur nxt Cons.prems have "tr' = tr @ [(ActionStep a, req)]" by simp
        with failed(2) show ?thesis
          using all_ok_snocD[of net un tr "ActionStep a" req] by blast
      next
        case (replied status resp req)
        with cur nxt Cons.prems
        have rec: "create_actions net srv jwt ten m as (tr @ [(ActionStep a, req)])
            = (Inl err, tr')"
          by simp
        from Cons.IH[OF rec] show ?thesis by simp
      qed
    qed
  qed
qed

section \<open>Every call of a run is the creation request of its step\<close>

lemma post_json_sent: "set (snd (post_json net before req)) \<subseteq> {req}"
  by (simp add: post_json_def split: outcome.splits)

lemma CreateProcess_sent:
  "set (snd (CreateProcess net before serverURL jwtToken tenantID name code description
      version sla))
     \<subseteq> {process_request serverURL jwtToken tenantID name code description version sla}"
  using post_json_sent[of net before
      "process_request serverURL jwtToken tenantID name code description version sla"]
  by (simp add: CreateProcess_def)

lemma CreateState_sent:
  "set (snd (CreateState net before serverURL jwtToken tenantID processID code name isInitial
      isParallel isJoin sla))
     \<subseteq> {state_request serverURL jwtToken tenantID processID code name isInitial isParallel
          isJoin sla}"
  using post_json_sent[of net before
      "state_request serverURL jwtToken tenantID processID code name isInitial isParallel
         isJoin sla"]
  by (simp add: CreateState_def)

lemma CreateAction_sent:
  "set (snd (CreateAction net before serverURL jwtToken tenantID stateID name nextState roles
      assigneeCheck))
     \<subseteq> {action_request serverURL jwtToken tenantID stateID name nextState roles
          assigneeCheck}"
  using post_json_sent[of net before
      "action_request serverURL jwtToken tenantID stateID name nextState roles assigneeCheck"]
  by (simp add: CreateAction_def)

lemma create_states_requests:
  assumes "\<forall>(st, req) \<in> set tr. creation_request srv jwt ten workflowDef st req"
  shows "\<forall>(st, req) \<in> set (snd (create_states net un srv jwt ten pid states m tr)).
           creation_request srv jwt ten workflowDef st req"
  using assms
proof (induction states arbitrary: m tr)
  case Nil
  then show ?case by simp
next
  case (Cons s ss)
  obtain r new where call: "CreateState net (map snd tr) srv jwt ten pid (State.Code s)
      (State.Name s) (IsInitial s) (IsParallel s) (IsJoin s) (State.SLA s) = (r, new)"
    by (rule prod.exhaust)
  have "set new \<subseteq> {state_request srv jwt ten pid (State.Code s) (State.Name s) (IsInitial s)
      (IsParallel s) (IsJoin s) (State.SLA s)}"
    using CreateState_sent[of net "map snd tr" srv jwt ten pid "State.Code s" "State.Name s"
        "IsInitial s" "IsParallel s" "IsJoin s" "State.SLA s"] call
    by simp
  then have "\<forall>req \<in> set new. creation_request srv jwt ten workflowDef (StateStep s) req"
    by (auto simp: creation_request_def)
  with Cons.prems
  have ext: "\<forall>(st, req) \<in> set (tr @ map (Pair (StateStep s)) new).
      creation_request srv jwt ten workflowDef st req"
    by auto
  show ?case
    using call ext Cons.IH[OF ext]
    by (simp split: sum.splits option.splits)
qed

lemma create_actions_requests:
  assumes "\<forall>(st, req) \<in> set tr. creation_request srv jwt ten workflowDef st req"
  shows "\<forall>(st, req) \<in> set (snd (create_actions net srv jwt ten m actions tr)).
           creation_request srv jwt ten workflowDef st req"
  using assms
proof (induction actions arbitrary: tr)
  case Nil
  then show ?case by simp
next
  case (Cons a as)
  show ?case
  proof (cases "m (CurrentState a)")
    case None
    with Cons.prems show ?thesis by simp
  next
    case (Some currentStateID)
    note cur = Some
    show ?thesis
    proof (cases "m (NextState a)")
      case None
      with cur Cons.prems show ?thesis by simp
    next
      case (Some nextStateID)
      obtain r new where call: "CreateAction net (map snd tr) srv jwt ten currentStateID
          (Action.Name a) nextStateID (Attributes.Roles (Attributes (AttributeValidation a)))
          (AssigneeCheck (AttributeValidation a)) = (r, new)"
        by (rule prod.exhaust)
      have "set new \<subseteq> {action_request srv jwt ten currentStateID (Action.Name a) nextStateID
          (Attributes.Roles (Attributes (AttributeValidation a)))
          (AssigneeCheck (AttributeValidation a))}"
        using CreateAction_sent[of net "map snd tr" srv jwt ten currentStateID "Action.Name a"
            nextStateID "Attributes.Roles (Attributes (AttributeValidation a))"
            "AssigneeCheck (AttributeValidation a)"] call
        by simp
      then have "\<forall>req \<in> set new. creation_request srv jwt ten workflowDef (ActionStep a) req"
        by (auto simp: creation_request_def)
      with Cons.prems
      have ext: "\<forall>(st, req) \<in> set (tr @ map (Pair (ActionStep a)) new).
          creation_request srv jwt ten workflowDef st req"
        by auto
      show ?thesis
        using call cur Some ext Cons.IH[OF ext]
        by (simp split: sum.splits)
    qed
  qed
qed

lemma createWorkflow_requests:
  "\<forall>(st, req) \<in> set (snd (createWorkflow net un srv jwt ten workflowDef)).
     creation_request srv jwt ten workflowDef st req"
proof -
  let ?wf = "Workflow workflowDef"
  obtain r new where call: "CreateProcess net [] srv jwt ten (Process.Name (Process ?wf))
      (Process.Code (Process ?wf)) (Description (Process ?wf)) (Version (Process ?wf))
      (Process.SLA (Process ?wf)) = (r, new)"
    by (rule prod.exhaust)
  have "set new \<subseteq> {process_request srv jwt ten (Process.Name (Process ?wf))
      (Process.Code (Process ?wf)) (Description (Process ?wf)) (Version (Process ?wf))
      (Process.SLA (Process ?wf))}"
    using CreateProcess_sent[of net "[]" srv jwt ten "Process.Name (Process ?wf)"
        "Process.Code (Process ?wf)" "Description (Process ?wf)" "Version (Process ?wf)"
        "Process.SLA (Process ?wf)"] call
    by simp
  then have first: "\<forall>(st, req) \<in> set (map (Pair ProcessStep) new).
      creation_request srv jwt ten workflowDef st req"
    by (auto simp: creation_request_def)
  have states: "\<forall>(st, req) \<in> set (snd (create_states net un srv jwt ten pid (States ?wf)
      Map.empty (map (Pair ProcessStep) new))). creation_request srv jwt ten workflowDef st req"
    for pid
    by (rule create_states_requests[OF first])
  have actions: "\<forall>(st, req) \<in> set (snd (create_actions net srv jwt ten m (Actions ?wf)
      (snd (create_states net un srv jwt ten pid (States ?wf) Map.empty
        (map (Pair ProcessStep) new))))). creation_request srv jwt ten workflowDef st req"
    for pid m
    by (rule create_actions_requests[OF states])
  show ?thesis
  proof (cases r)
    case (Inl err)
    with call first show ?thesis
      by (simp add: createWorkflow_def)
  next
    case (Inr resp)
    show ?thesis
    proof (cases "un resp")
      case None
      with Inr call first show ?thesis
        by (simp add: createWorkflow_def)
    next
      case (Some result)
      show ?thesis
      proof (cases "id_string result")
        case None
        with Some Inr call first show ?thesis
          by (simp add: createWorkflow_def)
      next
        case (Some pid)
        obtain r1 tr1 where r1: "create_states net un srv jwt ten pid (States ?wf) Map.empty
            (map (Pair ProcessStep) new) = (r1, tr1)"
          by (rule prod.exhaust)
        show ?thesis
        proof (cases r1)
          case (Inl err)
          with r1 Some \<open>un resp = Some result\<close> Inr call states[of pid] show ?thesis
            by (simp add: createWorkflow_def)
        next
          case (Inr m)
          obtain r2 tr2 where r2: "create_actions net srv jwt ten m (Actions ?wf) tr1 = (r2, tr2)"
            by (rule prod.exhaust)
          with r1 Inr Some \<open>un resp = Some result\<close> \<open>r = Inr resp\<close> call actions[of m pid]
          show ?thesis
            by (cases r2) (simp_all add: createWorkflow_def Let_def)
        qed
      qed
    qed
  qed
qed

section \<open>A service that answers every call\<close>

lemma post_json_obliging:
  assumes "obliging net un"
  obtains resp result ident where "post_json net before req = (Inr resp, [req])"
    "un resp = Some result" "id_string result = Some ident" "ident \<noteq> []"
proof -
  from assms obtain status resp result ident where
    "net before req = Replied status resp" "200 \<le> status" "status < 300"
    "un resp = Some result" "id_string result = Some ident" "ident \<noteq> []"
    unfolding obliging_def by blast
  moreover from this have "post_json net before req = (Inr resp, [req])"
    by (simp add: post_json_def)
  ultimately show ?thesis
    using that by blast
qed

lemma create_states_obliging:
  assumes "obliging net un" "srv \<noteq> []" "ten \<noteq> []" "pid \<noteq> []"
    and "\<forall>code ident. m code = Some ident \<longrightarrow> ident \<noteq> []"
  shows "\<exists>m' tr'. create_states net un srv jwt ten pid states m tr = (Inr m', tr')
           \<and> (\<forall>code ident. m' code = Some ident \<longrightarrow> ident \<noteq> [])"
  using assms(5)
proof (induction states arbitrary: m tr)
  case Nil
  then show ?case by simp
next
  case (Cons s ss)
  let ?req = "state_request srv jwt ten pid (State.Code s) (State.Name s) (IsInitial s)
      (IsParallel s) (IsJoin s) (State.SLA s)"
  obtain resp result ident where post: "post_json net (map snd tr) ?req = (Inr resp, [?req])"
    and parsed: "un resp = Some result" "id_string result = Some ident" and ident: "ident \<noteq> []"
    by (rule post_json_obliging[OF assms(1)])
  have call: "CreateState net (map snd tr) srv jwt ten pid (State.Code s) (State.Name s)
      (IsInitial s) (IsParallel s) (IsJoin s) (State.SLA s) = (Inr resp, [?req])"
    using post assms(2-4) by (simp add: CreateState_def)
  have "\<forall>code i. (m(State.Code s \<mapsto> ident)) code = Some i \<longrightarrow> i \<noteq> []"
    using Cons.prems ident by simp
  from Cons.IH[OF this, of "tr @ [(StateStep s, ?req)]"]
  obtain m' tr' where rec: "create_states net un srv jwt ten pid ss (m(State.Code s \<mapsto> ident))
      (tr @ [(StateStep s, ?req)]) = (Inr m', tr')"
    and ids: "\<forall>code ident. m' code = Some ident \<longrightarrow> ident \<noteq> []"
    by blast
  have "create_states net un srv jwt ten pid (s # ss) m tr = (Inr m', tr')"
    using call parsed rec by simp
  with ids show ?case by blast
qed

lemma create_actions_obliging:
  assumes "obliging net un" "srv \<noteq> []" "ten \<noteq> []"
    and "\<forall>code ident. m code = Some ident \<longrightarrow> ident \<noteq> []"
    and "dom m = set (map State.Code states)"
  shows "fst (create_actions net srv jwt ten m actions tr) =
           (case first_missing_reference states actions of
              Some err \<Rightarrow> Inl err
            | None \<Rightarrow> Inr ())"
proof (induction actions arbitrary: tr)
  case Nil
  show ?case by simp
next
  case (Cons a as)
  show ?case
  proof (cases "m (CurrentState a)")
    case None
    then show ?thesis
      by (simp add: missing_reference_map[OF assms(5)])
  next
    case (Some currentStateID)
    note cur = Some
    show ?thesis
    proof (cases "m (NextState a)")
      case None
      with cur show ?thesis
        by (simp add: missing_reference_map[OF assms(5)])
    next
      case (Some nextStateID)
      let ?req = "action_request srv jwt ten currentStateID (Action.Name a) nextStateID
          (Attributes.Roles (Attributes (AttributeValidation a)))
          (AssigneeCheck (AttributeValidation a))"
      obtain resp result ident where
        post: "post_json net (map snd tr) ?req = (Inr resp, [?req])"
        by (rule post_json_obliging[OF assms(1)])
      have "currentStateID \<noteq> []"
        using assms(4) cur by blast
      with post assms(2,3)
      have call: "CreateAction net (map snd tr) srv jwt ten currentStateID (Action.Name a)
          nextStateID (Attributes.Roles (Attributes (AttributeValidation a)))
          (AssigneeCheck (AttributeValidation a)) = (Inr resp, [?req])"
        by (simp add: CreateAction_def)
      have none: "missing_reference states a = None"
        using cur Some by (simp add: missing_reference_map[OF assms(5)])
      show ?thesis
        using cur Some call none Cons.IH[of "tr @ [(ActionStep a, ?req)]"] by simp
    qed
  qed
qed

lemma createWorkflow_obliging:
  assumes "obliging net un" "srv \<noteq> []" "ten \<noteq> []"
  shows "case first_missing_reference (States (Workflow workflowDef))
                (Actions (Workflow workflowDef)) of
           Some err \<Rightarrow> fst (createWorkflow net un srv jwt ten workflowDef) = Inl err
         | None \<Rightarrow> (\<exists>rep. fst (createWorkflow net un srv jwt ten workflowDef) = Inr rep)"
proof -
  let ?wf = "Workflow workflowDef"
  let ?req = "process_request srv jwt ten (Process.Name (Process ?wf))
      (Process.Code (Process ?wf)) (Description (Process ?wf)) (Version (Process ?wf))
      (Process.SLA (Process ?wf))"
  obtain resp result pid where post: "post_json net [] ?req = (Inr resp, [?req])"
    and parsed: "un resp = Some result" "id_string result = Some pid" and pid: "pid \<noteq> []"
    by (rule post_json_obliging[OF assms(1)])
  have call: "CreateProcess net [] srv jwt ten (Process.Name (Process ?wf))
      (Process.Code (Process ?wf)) (Description (Process ?wf)) (Version (Process ?wf))
      (Process.SLA (Process ?wf)) = (Inr resp, [?req])"
    using post assms(2,3) by (simp add: CreateProcess_def)
  have "\<forall>code ident. Map.empty code = Some ident \<longrightarrow> ident \<noteq> []"
    by simp
  from create_states_obliging[OF assms pid this, of jwt "States ?wf" "[(ProcessStep, ?req)]"]
  obtain m tr1 where states: "create_states net un srv jwt ten pid (States ?wf) Map.empty
      [(ProcessStep, ?req)] = (Inr m, tr1)"
    and ids: "\<forall>code ident. m code = Some ident \<longrightarrow> ident \<noteq> []"
    by blast
  have "dom m = dom (Map.empty :: string \<rightharpoonup> string) \<union> set (map State.Code (States ?wf))"
    by (rule create_states_dom[OF states])
  then have codes: "dom m = set (map State.Code (States ?wf))"
    by simp
  obtain r tr2 where actions: "create_actions net srv jwt ten m (Actions ?wf) tr1 = (r, tr2)"
    by (rule prod.exhaust)
  have r: "r = (case first_missing_reference (States ?wf) (Actions ?wf) of
      Some err \<Rightarrow> Inl err | None \<Rightarrow> Inr ())"
    using create_actions_obliging[OF assms ids codes, of jwt "Actions ?wf" tr1] actions
    by simp
  have "fst (createWorkflow net un srv jwt ten workflowDef) =
      (case r of Inl err \<Rightarrow> Inl err
       | Inr u \<Rightarrow> Inr \<lparr>ProcessID = pid, StatesCount = length (States ?wf),
                        ActionsCount = length (Actions ?wf)\<rparr>)"
    using call parsed states actions
    by (cases r) (simp_all add: createWorkflow_def Let_def)
  with r show ?thesis
    by (simp split: option.splits)
qed

section \<open>The order of the calls\<close>

lemma planned_steps_nth_not_action:
  assumes "i \<le> length (States (Workflow workflowDef))"
  shows "planned_steps workflowDef ! i \<noteq> ActionStep a"
proof (cases i)
  case 0
  then show ?thesis by (simp add: planned_steps_def)
next
  case (Suc j)
  with assms have "j < length (States (Workflow workflowDef))" by simp
  with Suc show ?thesis
    by (simp add: planned_steps_def nth_append)
qed

lemma length_planned_steps:
  "length (planned_steps workflowDef) =
     Suc (length (States (Workflow workflowDef)) + length (Actions (Workflow workflowDef)))"
  by (simp add: planned_steps_def)

lemma createWorkflow_trace:
  assumes "createWorkflow net un srv jwt ten workflowDef = (res, tr)"
  shows "(\<exists>k. map fst tr = take k (planned_steps workflowDef))
       \<and> all_but_last_ok net un tr
       \<and> (\<forall>rep. res = Inr rep \<longrightarrow> map fst tr = planned_steps workflowDef \<and> all_ok net un tr)
       \<and> (\<forall>err. res = Inl err \<longrightarrow>
            \<not> (map fst tr = planned_steps workflowDef \<and> all_ok net un tr))"
proof (cases rule: createWorkflow_cases[of net un srv jwt ten workflowDef])
  case (process_failed err tr0)
  with assms have res: "res = Inl err" and tr: "tr = tr0" by simp_all
  have "map fst tr0 = take (length tr0) (planned_steps workflowDef)"
    using process_failed(3,4) by (cases tr0) (simp_all add: planned_steps_def)
  moreover have "\<not> (map fst tr0 = planned_steps workflowDef \<and> all_ok net un tr0)"
    using process_failed(6) by (auto simp: planned_steps_def)
  ultimately show ?thesis
    using res tr process_failed(5) by blast
next
  case (states_failed pid tr0 err tr1)
  let ?states = "States (Workflow workflowDef)"
  from states_failed(4) assms have res: "res = Inl err" and tr: "tr = tr1" by simp_all
  from create_states_run[OF states_failed(3) states_failed(1)] obtain k where
    k: "k \<le> length ?states"
    "map fst tr1 = map fst tr0 @ map StateStep (take k ?states)"
    "all_but_last_ok net un tr1"
    by blast
  have tags: "map fst tr1 = take (Suc k) (planned_steps workflowDef)"
    using k(1,2) states_failed(2) by (simp add: planned_steps_def take_map)
  have len0: "length tr0 = 1"
    using arg_cong[OF states_failed(2), of length] by simp
  have len1: "length tr1 = Suc k"
    using arg_cong[OF k(2), of length] k(1) len0 by simp
  have "\<not> (map fst tr1 = planned_steps workflowDef \<and> all_ok net un tr1)"
  proof
    assume a: "map fst tr1 = planned_steps workflowDef \<and> all_ok net un tr1"
    then have "length tr1 = length (planned_steps workflowDef)"
      by (metis length_map)
    with len1 k(1) have "length tr1 = length tr0 + length ?states"
      by (simp add: length_planned_steps len0)
    with a create_states_failed[OF states_failed(3), of ] show False
      by blast
  qed
  with tags k(3) res tr show ?thesis
    by blast
next
  case (states_done pid tr0 m tr1 r tr2)
  let ?states = "States (Workflow workflowDef)"
  let ?actions = "Actions (Workflow workflowDef)"
  from states_done(5) assms have tr: "tr = tr2"
    and res: "res = (case r of Inl err \<Rightarrow> Inl err
        | Inr u \<Rightarrow> Inr \<lparr>ProcessID = pid, StatesCount = length ?states,
                         ActionsCount = length ?actions\<rparr>)"
    by simp_all
  from create_states_run[OF states_done(3) states_done(1)] obtain k where
    k: "k \<le> length ?states"
    "map fst tr1 = map fst tr0 @ map StateStep (take k ?states)"
    "\<forall>m'. Inr m = Inr m' \<longrightarrow> k = length ?states \<and> all_ok net un tr1"
    by blast
  then have k_all: "k = length ?states" and ok1: "all_ok net un tr1"
    by simp_all
  have tags1: "map fst tr1 = ProcessStep # map StateStep ?states"
    using k(2) k_all states_done(2) by simp
  have len1: "length tr1 = Suc (length ?states)"
    using arg_cong[OF tags1, of length] by simp
  from create_actions_run[OF states_done(4) ok1] obtain j where
    j: "j \<le> length ?actions"
    "map fst tr2 = map fst tr1 @ map ActionStep (take j ?actions)"
    "all_but_last_ok net un tr2"
    "\<forall>u. r = Inr u \<longrightarrow> j = length ?actions \<and> all_ok net un tr2"
    by blast
  have tags2: "map fst tr2 = take (Suc (length ?states + j)) (planned_steps workflowDef)"
    using j(1,2) tags1 by (simp add: planned_steps_def take_map)
  have success: "map fst tr2 = planned_steps workflowDef \<and> all_ok net un tr2" if "r = Inr u" for u
    using j(4) that tags2 by (simp add: length_planned_steps)
  have failure: "\<not> (map fst tr2 = planned_steps workflowDef \<and> all_ok net un tr2)"
    if "r = Inl err" for err
  proof
    assume a: "map fst tr2 = planned_steps workflowDef \<and> all_ok net un tr2"
    then have "length tr2 = length (planned_steps workflowDef)"
      by (metis length_map)
    then have "length tr2 = length tr1 + length ?actions"
      by (simp add: length_planned_steps len1)
    with a create_actions_failed[OF states_done(4)[unfolded that]] show False
      by blast
  qed
  show ?thesis
  proof (cases r)
    case (Inl err)
    with res have "res = Inl err" by simp
    with failure[OF Inl] tags2 j(3) tr show ?thesis
      by blast
  next
    case (Inr u)
    with res have "\<exists>rep. res = Inr rep" by simp
    with success[OF Inr] tags2 j(3) tr show ?thesis
      by blast
  qed
qed

text \<open>
  Claim C7. Every run of create-workflow makes its creation calls one after the other in
  the order of the plan: the process, then every state in the order of the definition,
  then every action in the order of the definition; each call is the creation request of
  its step. Every call but the last of a run was answered with success, so no call
  follows a call that failed. A run that succeeds has made every call of the plan, each
  answered with success; a run that fails has not. An action-creation call comes after
  the call of the process and the calls of all the states, each answered with success and
  an identifier.
\<close>

theorem createWorkflow_in_order:
  assumes "createWorkflow net un srv jwt ten workflowDef = (res, tr)"
  shows "(\<exists>k. map fst tr = take k (planned_steps workflowDef))
       \<and> (\<forall>(st, req) \<in> set tr. creation_request srv jwt ten workflowDef st req)
       \<and> all_but_last_ok net un tr
       \<and> (\<forall>rep. res = Inr rep \<longrightarrow> map fst tr = planned_steps workflowDef \<and> all_ok net un tr)
       \<and> (\<forall>err. res = Inl err \<longrightarrow>
            \<not> (map fst tr = planned_steps workflowDef \<and> all_ok net un tr))
       \<and> (\<forall>i a. i < length tr \<and> fst (tr ! i) = ActionStep a \<longrightarrow>
            length (States (Workflow workflowDef)) < i
            \<and> map fst (take (Suc (length (States (Workflow workflowDef)))) tr)
                = ProcessStep # map StateStep (States (Workflow workflowDef))
            \<and> (\<forall>j \<le> length (States (Workflow workflowDef)). answered_ok net un tr j))"
proof -
  let ?n = "length (States (Workflow workflowDef))"
  from createWorkflow_trace[OF assms] obtain k where
    tags: "map fst tr = take k (planned_steps workflowDef)"
    and abl: "all_but_last_ok net un tr"
    and success: "\<forall>rep. res = Inr rep \<longrightarrow> map fst tr = planned_steps workflowDef \<and> all_ok net un tr"
    and failure: "\<forall>err. res = Inl err \<longrightarrow>
        \<not> (map fst tr = planned_steps workflowDef \<and> all_ok net un tr)"
    by blast
  have requests: "\<forall>(st, req) \<in> set tr. creation_request srv jwt ten workflowDef st req"
    using createWorkflow_requests[of net un srv jwt ten workflowDef] assms by simp
  have actions: "?n < i
      \<and> map fst (take (Suc ?n) tr) = ProcessStep # map StateStep (States (Workflow workflowDef))
      \<and> (\<forall>j \<le> ?n. answered_ok net un tr j)"
    if i: "i < length tr" and a: "fst (tr ! i) = ActionStep a" for i a
  proof -
    have "i < length (map fst tr)"
      using i by simp
    then have ik: "i < k" and ip: "i < length (planned_steps workflowDef)"
      unfolding tags by simp_all
    have "planned_steps workflowDef ! i = ActionStep a"
      using a i ik nth_map[OF i, of fst] by (simp add: tags)
    then have after: "?n < i"
      using planned_steps_nth_not_action[of i workflowDef a] by (cases "?n < i") simp_all
    have "map fst (take (Suc ?n) tr) = take (Suc ?n) (map fst tr)"
      by (rule take_map[symmetric])
    also have "\<dots> = take (Suc ?n) (take k (planned_steps workflowDef))"
      by (simp only: tags)
    also have "\<dots> = take (Suc ?n) (planned_steps workflowDef)"
      using after ik by (simp add: min_def)
    also have "\<dots> = ProcessStep # map StateStep (States (Workflow workflowDef))"
      by (simp add: planned_steps_def)
    finally have first: "map fst (take (Suc ?n) tr)
        = ProcessStep # map StateStep (States (Workflow workflowDef))" .
    have "answered_ok net un tr j" if "j \<le> ?n" for j
      using abl that after i unfolding all_but_last_ok_def by simp
    with after first show ?thesis
      by blast
  qed
  show ?thesis
    using tags abl success failure requests actions by blast
qed

end
